theory Spec2Isabelle
  imports Main "HOL-Library.AList" "HOL-Library.Sublist"
begin

section \<open>Python text primitives used by the daemon\<close>

text \<open>
  A Python \<open>str\<close> is modelled as a \<open>string\<close> whose characters stand for code points
  below 256; \<open>bytes\<close> are modelled as a \<open>string\<close> whose characters stand for octets.
  The predicates below follow CPython on that range.
\<close>

abbreviation CR :: char where "CR \<equiv> CHR 0x0D"
abbreviation LF :: char where "LF \<equiv> CHR 0x0A"
abbreviation CRLF :: string where "CRLF \<equiv> [CR, LF]"
abbreviation APOS :: char where "APOS \<equiv> CHR 0x27"

type_synonym bytes = string

text \<open>\<open>str.isspace\<close> on one character: what \<open>split()\<close> and \<open>strip()\<close> treat as blank.\<close>

definition is_space :: "char \<Rightarrow> bool" where
  "is_space c = (let n = (of_char c :: nat) in
     (9 \<le> n \<and> n \<le> 13) \<or> (28 \<le> n \<and> n \<le> 31) \<or> n = 32 \<or> n = 133 \<or> n = 160)"

text \<open>The line boundaries of \<open>str.splitlines\<close>; CR followed by LF counts as one boundary.\<close>

definition is_linebreak :: "char \<Rightarrow> bool" where
  "is_linebreak c = (let n = (of_char c :: nat) in
     (10 \<le> n \<and> n \<le> 13) \<or> (28 \<le> n \<and> n \<le> 30) \<or> n = 133)"

text \<open>\<open>s.splitlines()\<close>: the accumulator holds the current line, reversed.\<close>

fun splitlines_acc :: "string \<Rightarrow> string \<Rightarrow> string list" where
  "splitlines_acc cur [] = (if cur = [] then [] else [rev cur])"
| "splitlines_acc cur (c # cs) =
     (if is_linebreak c
      then rev cur # splitlines_acc [] (if c = CR \<and> cs \<noteq> [] \<and> hd cs = LF then tl cs else cs)
      else splitlines_acc (c # cur) cs)"

definition splitlines :: "string \<Rightarrow> string list" where
  "splitlines s = splitlines_acc [] s"

text \<open>\<open>s.split()\<close>: maximal runs of non-blank characters.\<close>

fun split_ws_acc :: "string \<Rightarrow> string \<Rightarrow> string list" where
  "split_ws_acc cur [] = (if cur = [] then [] else [rev cur])"
| "split_ws_acc cur (c # cs) =
     (if is_space c
      then (if cur = [] then split_ws_acc [] cs else rev cur # split_ws_acc [] cs)
      else split_ws_acc (c # cur) cs)"

definition split_ws :: "string \<Rightarrow> string list" where
  "split_ws s = split_ws_acc [] s"

text \<open>
  \<open>s.partition(sep)\<close> at the leftmost occurrence of a non-empty \<open>sep\<close>: the text before
  and after it, or \<open>None\<close> when \<open>sep\<close> does not occur (\<open>sep in s\<close> is false).
\<close>

fun partition_at :: "string \<Rightarrow> string \<Rightarrow> (string \<times> string) option" where
  "partition_at sep [] = None"
| "partition_at sep (c # cs) =
     (if prefix sep (c # cs) then Some ([], drop (length sep) (c # cs))
      else map_option (\<lambda>(a, b). (c # a, b)) (partition_at sep cs))"

definition contains :: "string \<Rightarrow> string \<Rightarrow> bool" where
  "contains sep s = (partition_at sep s \<noteq> None)"

text \<open>\<open>s.split(sep, 1)\<close>: one or two parts.\<close>

definition split_once :: "string \<Rightarrow> string \<Rightarrow> string list" where
  "split_once sep s = (case partition_at sep s of None \<Rightarrow> [s] | Some (a, b) \<Rightarrow> [a, b])"

text \<open>\<open>s.split(sep)\<close> for a non-empty separator: every occurrence, left to right.\<close>

function split_on :: "string \<Rightarrow> string \<Rightarrow> string list" where
  "split_on sep s =
     (if sep = [] then [s]
      else case partition_at sep s of
             None \<Rightarrow> [s]
           | Some (a, b) \<Rightarrow> a # split_on sep b)"
  by pat_completeness auto
termination
proof (relation "measure (\<lambda>(sep, s). length s)")
  have shorter: "length b < length s"
    if "partition_at sep s = Some (a, b)" and "sep \<noteq> []" for sep s a b
    using that
  proof (induction s arbitrary: a)
    case Nil
    then show ?case by simp
  next
    case (Cons c cs)
    show ?case
    proof (cases "prefix sep (c # cs)")
      case True
      with Cons.prems show ?thesis by (cases sep) auto
    next
      case False
      with Cons.prems obtain a' where "partition_at sep cs = Some (a', b)"
        by (auto split: prod.splits)
      with Cons.IH Cons.prems(2) show ?thesis by fastforce
    qed
  qed
  show "wf (measure (\<lambda>(sep, s). length s))" by simp
  show "((sep, b), (sep, s)) \<in> measure (\<lambda>(sep, s). length s)"
    if "sep \<noteq> []" and "partition_at sep s = Some p" and "(a, b) = p" for sep s p a b
    using that shorter [of sep s a b] by simp
qed

declare split_on.simps [simp del]

text \<open>\<open>s.lower()\<close>: the ASCII capitals and the Latin-1 capitals except the multiplication sign.\<close>

definition lower_char :: "char \<Rightarrow> char" where
  "lower_char c = (let n = (of_char c :: nat) in
     if (65 \<le> n \<and> n \<le> 90) \<or> (192 \<le> n \<and> n \<le> 222 \<and> n \<noteq> 215)
     then char_of (n + 32) else c)"

definition lower :: "string \<Rightarrow> string" where
  "lower s = map lower_char s"

definition strip :: "string \<Rightarrow> string" where
  "strip s = rev (dropWhile is_space (rev (dropWhile is_space s)))"

text \<open>\<open>s.lstrip("/")\<close>.\<close>

definition lstrip_slash :: "string \<Rightarrow> string" where
  "lstrip_slash s = dropWhile (\<lambda>c. c = CHR ''/'') s"

text \<open>\<open>s.replace("+", " ")\<close>.\<close>

definition replace_plus :: "string \<Rightarrow> string" where
  "replace_plus s = map (\<lambda>c. if c = CHR ''+'' then CHR '' '' else c) s"

text \<open>\<open>sep.join(xs)\<close>.\<close>

fun join :: "string \<Rightarrow> string list \<Rightarrow> string" where
  "join sep [] = []"
| "join sep [x] = x"
| "join sep (x # y # ys) = x @ sep @ join sep (y # ys)"

text \<open>\<open>str(n)\<close> for a non-negative and for an arbitrary integer.\<close>

function str_nat :: "nat \<Rightarrow> string" where
  "str_nat n = (if n < 10 then [char_of (48 + n)] else str_nat (n div 10) @ [char_of (48 + n mod 10)])"
  by pat_completeness auto
termination
  by (relation "measure id") auto

declare str_nat.simps [simp del]

definition str_int :: "int \<Rightarrow> string" where
  "str_int i = (if i < 0 then CHR ''-'' # str_nat (nat (- i)) else str_nat (nat i))"

text \<open>\<open>s.encode()\<close>: UTF-8 of code points below 256.\<close>

definition encode_char :: "char \<Rightarrow> bytes" where
  "encode_char c = (let n = (of_char c :: nat) in
     if n < 128 then [c] else [char_of (192 + n div 64), char_of (128 + n mod 64)])"

definition encode :: "string \<Rightarrow> bytes" where
  "encode s = concat (map encode_char s)"

text \<open>\<open>os.path.join(a, b)\<close> on a POSIX system.\<close>

definition os_path_join :: "string \<Rightarrow> string \<Rightarrow> string" where
  "os_path_join a b =
     (if prefix ''/'' b then b
      else if a = [] \<or> suffix ''/'' a then a @ b
      else a @ ''/'' @ b)"

section \<open>Data model\<close>

text \<open>
  Exceptions are values: the Python class with the text \<open>str(e)\<close> gives. \<open>HandlerError\<close>
  stands for whatever a route handler raises in its own body.
\<close>

datatype exn =
    IndexError string
  | ValueError string
  | AttributeError string
  | TypeError string
  | HandlerError string

fun exn_str :: "exn \<Rightarrow> string" where
  "exn_str (IndexError m) = m"
| "exn_str (ValueError m) = m"
| "exn_str (AttributeError m) = m"
| "exn_str (TypeError m) = m"
| "exn_str (HandlerError m) = m"

definition none_has_no_attribute :: "string \<Rightarrow> exn" where
  "none_has_no_attribute a =
     AttributeError ([APOS] @ ''NoneType'' @ [APOS] @ '' object has no attribute '' @ [APOS] @ a @ [APOS])"

text \<open>
  A Python \<open>dict\<close> with text keys and values, in insertion order: \<open>d[k] = v\<close> is
  \<open>AList.update k v d\<close>, \<open>d.get(k)\<close> is \<open>map_of d k\<close>.
\<close>

type_synonym dict = "(string \<times> string) list"

definition dict_get :: "dict \<Rightarrow> string \<Rightarrow> string \<Rightarrow> string" where
  "dict_get d k dflt = (case map_of d k of None \<Rightarrow> dflt | Some v \<Rightarrow> v)"

text \<open>
  What lies outside the program: \<open>mimetypes.guess_type\<close> on a path, the outcome of
  opening and reading a file, and the clock as \<open>build_response_header\<close> formats it.
  The outcome of \<open>open\<close> and \<open>read\<close> is the data, \<open>FileNotFoundError\<close>, or any other
  exception with its text. A file that does not exist is not always reported by
  \<open>FileNotFoundError\<close>: when a component of the path is a regular file, \<open>open\<close> raises
  \<open>NotADirectoryError\<close>, which is not a \<open>FileNotFoundError\<close>.
\<close>

datatype file_result = FileData bytes | FileNotFound | FileError string

record env =
  guess_type :: "string \<Rightarrow> string option"
  open_read :: "string \<Rightarrow> file_result"
  utcnow :: string

text \<open>
  The dynamic payload \<open>Response.content\<close>: absent, text or bytes, the cases
  \<open>build_response\<close> tells apart.
\<close>

datatype content = StrContent string | BytesContent bytes

record response =
  r_headers :: dict
  r_cookies :: dict
  status_code :: "nat option"
  content :: "content option"

definition new_response :: response where
  "new_response = \<lparr>r_headers = [], r_cookies = [], status_code = None, content = None\<rparr>"

text \<open>
  What a route handler returns, as \<open>handle_client\<close> tells the cases apart: a
  \<open>Response\<close>, a \<open>dict\<close> or anything else; the last two carry their \<open>str(result)\<close>.
\<close>

datatype pyval = RespVal response | DictVal string | OtherVal string

record request_data =
  "method" :: "string option"
  path :: "string option"
  version :: "string option"
  headers :: dict
  cookies :: dict
  body :: string

text \<open>
  A route handler: the \<open>co_varnames\<close> of its code object (absent for a callable without
  \<open>__code__\<close>) and what calling it does, for each of the three ways \<open>_call_hook\<close> calls:
  it returns a value or raises. What a handler does to the registries of the chat
  application lies outside the daemon.
\<close>

datatype hook_args = KwBody string | PosReq request_data | NoArgs

record handler =
  co_varnames :: "string list option"
  call :: "hook_args \<Rightarrow> exn + pyval"

record request = request_data +
  hook :: "handler option"

text \<open>The route table, a \<open>dict\<close> from \<open>(method, path)\<close> to the handler.\<close>

type_synonym routes = "((string \<times> string) \<times> handler) list"

section \<open>daemon.request\<close>

text \<open>The body of the \<open>try\<close> in \<open>extract_request_line\<close>.\<close>

definition request_line_try :: "string \<Rightarrow> exn + (string \<times> string \<times> string)" where
  "request_line_try raw =
     (case splitlines raw of
        [] \<Rightarrow> Inl (IndexError ''list index out of range'')
      | first # _ \<Rightarrow>
          (case split_ws first of
             [m, p, v] \<Rightarrow> Inr (m, (if p = ''/'' then ''/index.html'' else p), v)
           | ts \<Rightarrow> Inl (ValueError
               (if length ts < 3
                then ''not enough values to unpack (expected 3, got '' @ str_nat (length ts) @ '')''
                else ''too many values to unpack (expected 3)''))))"

definition extract_request_line :: "string \<Rightarrow> string option \<times> string option \<times> string option" where
  "extract_request_line raw =
     (case request_line_try raw of
        Inr (m, p, v) \<Rightarrow> (Some m, Some p, Some v)
      | Inl _ \<Rightarrow> (None, None, None))"

definition prepare_headers :: "string \<Rightarrow> dict" where
  "prepare_headers raw =
     fold (\<lambda>line hs. case partition_at '': '' line of
                        None \<Rightarrow> hs
                      | Some (k, v) \<Rightarrow> AList.update (lower k) v hs)
          (tl (split_on CRLF raw)) []"

text \<open>
  In \<open>parse_cookies\<close> the test \<open>"=" in pair\<close> is on the pair as it is and the split on
  the stripped pair; stripping removes no \<open>=\<close>, so the split has two parts.
\<close>

definition parse_cookies :: "dict \<Rightarrow> dict" where
  "parse_cookies hs =
     fold (\<lambda>pair cs. if contains ''='' pair
                      then (case partition_at ''='' (strip pair) of
                              Some (k, v) \<Rightarrow> AList.update k v cs
                            | None \<Rightarrow> cs)
                      else cs)
          (split_on '';'' (dict_get hs ''cookie'' [])) []"

definition extract_body :: "string \<Rightarrow> string" where
  "extract_body raw = (case split_once (CRLF @ CRLF) raw of [_, b] \<Rightarrow> b | _ \<Rightarrow> [])"

definition parse_form_data :: "string \<Rightarrow> dict" where
  "parse_form_data b =
     fold (\<lambda>pair form. case partition_at ''='' pair of
                          None \<Rightarrow> form
                        | Some (k, v) \<Rightarrow> AList.update k (replace_plus v) form)
          (split_on ''&'' b) []"

text \<open>
  The route lookup of \<open>prepare\<close>, made only when the route table is not empty:
  \<open>route_path\<close> is \<open>self.path.split("?", 1)[0]\<close>, which fails on an absent path, and
  the key looked up is \<open>(self.method, route_path)\<close>.
\<close>

definition route_path :: "string \<Rightarrow> string" where
  "route_path p = hd (split_once ''?'' p)"

definition lookup_hook :: "routes \<Rightarrow> string option \<Rightarrow> string option \<Rightarrow> exn + handler option" where
  "lookup_hook rts m p =
     (case rts of
        [] \<Rightarrow> Inr None
      | _ # _ \<Rightarrow>
          (case p of
             None \<Rightarrow> Inl (none_has_no_attribute ''split'')
           | Some p' \<Rightarrow>
               Inr (case m of None \<Rightarrow> None | Some m' \<Rightarrow> map_of rts (m', route_path p'))))"

definition prepare :: "string \<Rightarrow> routes \<Rightarrow> exn + request" where
  "prepare raw rts =
     (case extract_request_line raw of
        (m, p, v) \<Rightarrow>
          (case lookup_hook rts m p of
             Inl e \<Rightarrow> Inl e
           | Inr h \<Rightarrow>
               (let hs = prepare_headers raw
                in Inr \<lparr>method = m, path = p, version = v, headers = hs,
                        cookies = parse_cookies hs,
                        body = (if m = Some ''POST'' then extract_body raw else []),
                        hook = h\<rparr>)))"

section \<open>daemon.response\<close>

definition BASE_DIR :: string where
  "BASE_DIR = []"

text \<open>The text \<open>set_cookie\<close> builds in its local \<open>cookie\<close>; a \<open>max_age\<close> of 0 is falsy.\<close>

definition cookie_text :: "string \<Rightarrow> string \<Rightarrow> string \<Rightarrow> int option \<Rightarrow> string" where
  "cookie_text name val pth max_age =
     name @ ''='' @ val @ ''; Path='' @ pth @
     (case max_age of
        None \<Rightarrow> []
      | Some n \<Rightarrow> if n \<noteq> 0 then ''; Max-Age='' @ str_int n else [])"

text \<open>\<open>self.cookies\<close> is a \<open>CaseInsensitiveDict\<close>: it stores under the lower-cased key.\<close>

definition set_cookie :: "response \<Rightarrow> string \<Rightarrow> string \<Rightarrow> string \<Rightarrow> int option \<Rightarrow> response" where
  "set_cookie resp name val pth max_age =
     resp\<lparr>r_cookies := AList.update (lower name) (cookie_text name val pth max_age) (r_cookies resp)\<rparr>"

text \<open>\<open>guess_type\<close> raises on an absent path, which \<open>get_mime_type\<close> catches.\<close>

definition get_mime_type :: "env \<Rightarrow> string option \<Rightarrow> string" where
  "get_mime_type ev p =
     (case p of
        None \<Rightarrow> ''application/octet-stream''
      | Some p' \<Rightarrow>
          (case guess_type ev p' of
             None \<Rightarrow> ''application/octet-stream''
           | Some mt \<Rightarrow> if mt = [] then ''application/octet-stream'' else mt))"

definition prepare_content_type :: "response \<Rightarrow> string \<Rightarrow> exn + (response \<times> string)" where
  "prepare_content_type resp mime_type =
     (case split_once ''/'' mime_type of
        [main, sub] \<Rightarrow>
          (if main = ''text''
           then Inr (resp\<lparr>r_headers := AList.update ''Content-Type'' (''text/'' @ sub) (r_headers resp)\<rparr>,
                     BASE_DIR @ (if sub = ''html'' then ''www/'' else ''static/''))
           else if main = ''image''
           then Inr (resp\<lparr>r_headers := AList.update ''Content-Type'' (''image/'' @ sub) (r_headers resp)\<rparr>,
                     BASE_DIR @ ''static/'')
           else if main = ''application''
           then Inr (resp\<lparr>r_headers := AList.update ''Content-Type'' (''application/'' @ sub) (r_headers resp)\<rparr>,
                     BASE_DIR @ (if sub \<noteq> ''octet-stream'' then ''apps/'' else ''static/''))
           else Inl (ValueError (''Invalid MIME type: '' @ main @ ''/'' @ sub)))
      | _ \<Rightarrow> Inl (ValueError ''not enough values to unpack (expected 2, got 1)''))"

text \<open>The local \<open>filepath\<close> of \<open>build_content\<close>: where the file is looked for.\<close>

definition resolve_path :: "string \<Rightarrow> string \<Rightarrow> string" where
  "resolve_path p base_dir =
     (if prefix ''/static/'' p then lstrip_slash p
      else os_path_join base_dir (lstrip_slash p))"

definition build_content :: "env \<Rightarrow> string \<Rightarrow> string \<Rightarrow> nat \<times> bytes" where
  "build_content ev p base_dir =
     (case open_read ev (resolve_path p base_dir) of
        FileData buf \<Rightarrow> (length buf, buf)
      | FileNotFound \<Rightarrow> (0, ''File not found'')
      | FileError msg \<Rightarrow> (0, encode (''Error reading file: '' @ msg)))"

text \<open>\<open>build_response_header\<close>; the last argument is \<open>self._content\<close>.\<close>

definition build_response_header :: "env \<Rightarrow> response \<Rightarrow> request \<Rightarrow> bytes \<Rightarrow> bytes" where
  "build_response_header ev resp req cont =
     (let reqhdr = headers req;
          hdrs = [(''Accept'', dict_get reqhdr ''Accept'' ''application/json''),
                  (''Accept-Language'', dict_get reqhdr ''Accept-Language'' ''en-US,en;q=0.9''),
                  (''Authorization'', dict_get reqhdr ''Authorization'' ''Basic <credentials>''),
                  (''Cache-Control'', ''no-cache''),
                  (''Content-Type'', dict_get (r_headers resp) ''Content-Type'' ''text/html''),
                  (''Content-Length'', str_nat (length cont)),
                  (''Date'', utcnow ev),
                  (''Max-Forward'', ''10''),
                  (''Pragma'', ''no-cache''),
                  (''Proxy-Authorization'', ''Basic dXNlcjpwYXNz''),
                  (''Warning'', ''199 Miscellaneous warning''),
                  (''User-Agent'', dict_get reqhdr ''User-Agent'' ''Chrome/123.0.0.0'')];
          lines = [''HTTP/1.1 200 OK'']
                  @ map (\<lambda>(k, v). k @ '': '' @ v) hdrs
                  @ map (\<lambda>(_, cookie). ''Set-Cookie: '' @ cookie) (r_cookies resp)
                  @ [[]]
      in encode (join CRLF lines @ CRLF))"

definition build_notfound :: bytes where
  "build_notfound = encode
     (''HTTP/1.1 404 Not Found'' @ CRLF @
      ''Accept-Ranges: bytes'' @ CRLF @
      ''Content-Type: text/html'' @ CRLF @
      ''Content-Length: 13'' @ CRLF @
      ''Cache-Control: max-age=86000'' @ CRLF @
      ''Connection: close'' @ CRLF @
      CRLF @
      ''404 Not Found'')"

text \<open>Python truthiness of \<open>getattr(self, "content", None)\<close>.\<close>

definition has_content :: "response \<Rightarrow> bool" where
  "has_content resp =
     (case content resp of
        None \<Rightarrow> False
      | Some (StrContent s) \<Rightarrow> s \<noteq> []
      | Some (BytesContent b) \<Rightarrow> b \<noteq> [])"

text \<open>
  The \<open>if\<close>/\<open>elif\<close> chain of \<open>build_response\<close> on the path and its guessed type: the
  response with its Content-Type set and the base directory, or \<open>None\<close> for the final
  \<open>else\<close>, which answers with \<open>build_notfound\<close>.
\<close>

definition choose_base :: "response \<Rightarrow> string \<Rightarrow> string \<Rightarrow> exn + (response \<times> string) option" where
  "choose_base resp p mime =
     (if suffix ''.html'' p \<or> mime = ''text/html''
      then map_sum id Some (prepare_content_type resp ''text/html'')
      else if mime = ''text/css''
      then map_sum id Some (prepare_content_type resp ''text/css'')
      else if suffix ''.js'' p \<or> mime = ''application/javascript'' \<or> mime = ''text/javascript''
      then map_sum id Some (prepare_content_type resp ''application/javascript'')
      else if prefix ''image/'' mime
      then map_sum id Some (prepare_content_type resp mime)
      else Inr None)"

definition build_response :: "env \<Rightarrow> response \<Rightarrow> request \<Rightarrow> exn + bytes" where
  "build_response ev resp req =
     (if has_content resp
      then (let resp' = resp\<lparr>r_headers := AList.update ''Content-Type'' ''application/json'' (r_headers resp)\<rparr>;
                cont = (case content resp of
                          Some (StrContent s) \<Rightarrow> encode s
                        | Some (BytesContent b) \<Rightarrow> b
                        | None \<Rightarrow> [])
            in Inr (build_response_header ev resp' req cont @ cont))
      else (let mime = get_mime_type ev (path req)
            in case path req of
                 None \<Rightarrow> Inl (none_has_no_attribute ''endswith'')
               | Some p \<Rightarrow>
                   (case choose_base resp p mime of
                      Inl e \<Rightarrow> Inl e
                    | Inr None \<Rightarrow> Inr build_notfound
                    | Inr (Some (resp', base)) \<Rightarrow>
                        (case build_content ev p base of
                           (sz, cont) \<Rightarrow>
                             if sz = 0 \<and> cont = ''File not found''
                             then Inr build_notfound
                             else Inr (build_response_header ev resp' req cont @ cont)))))"

section \<open>daemon.httpadapter\<close>

abbreviation DQUOTE :: char where "DQUOTE \<equiv> CHR 0x22"

definition build_error_response :: "nat \<Rightarrow> string \<Rightarrow> bytes" where
  "build_error_response code message =
     (let b = (if code = 401
               then ''<html><body><h1>401 Unauthorized</h1><p>'' @ message @ ''</p><a href=''
                    @ [DQUOTE] @ ''/login.html'' @ [DQUOTE] @ ''>Login Here</a></body></html>''
               else ''<html><body><h1>'' @ str_nat code @ '' '' @ message @ ''</h1><p>''
                    @ message @ ''</p></body></html>'');
          head = ''HTTP/1.1 '' @ str_nat code @ '' '' @ message @ CRLF @
                 ''Content-Type: text/html'' @ CRLF @
                 ''Content-Length: '' @ str_nat (length b) @ CRLF @
                 ''Connection: close'' @ CRLF @ CRLF
      in encode (head @ b))"

text \<open>The fields of the request a handler called with \<open>hook(req)\<close> reads.\<close>

definition request_view :: "request \<Rightarrow> request_data" where
  "request_view req =
     \<lparr>method = method req, path = path req, version = version req,
      headers = headers req, cookies = cookies req, body = body req\<rparr>"

text \<open>\<open>_call_hook\<close>: \<open>names\<close> is \<open>hook.__code__.co_varnames\<close>, or \<open>()\<close> without a code object.\<close>

definition call_hook :: "request \<Rightarrow> exn + pyval" where
  "call_hook req =
     (case hook req of
        None \<Rightarrow> Inl (TypeError ([APOS] @ ''NoneType'' @ [APOS] @ '' object is not callable''))
      | Some h \<Rightarrow>
          (let names = (case co_varnames h of None \<Rightarrow> [] | Some ns \<Rightarrow> ns)
           in if ''body'' \<in> set names then call h (KwBody (body req))
              else if ''req'' \<in> set names then call h (PosReq (request_view req))
              else call h NoArgs))"

definition handle_login :: "env \<Rightarrow> request \<Rightarrow> response \<Rightarrow> exn + bytes" where
  "handle_login ev req resp =
     (let form = parse_form_data (body req);
          user = dict_get form ''username'' [];
          pw = dict_get form ''password'' []
      in if user = ''admin'' \<and> pw = ''password''
         then build_response ev
                ((set_cookie resp ''auth'' ''true'' ''/'' None)\<lparr>status_code := Some 200\<rparr>)
                (req\<lparr>path := Some ''/index.html''\<rparr>)
         else Inr (build_error_response 401 ''Unauthorized''))"

definition handle_protected_route :: "env \<Rightarrow> request \<Rightarrow> response \<Rightarrow> exn + bytes" where
  "handle_protected_route ev req resp =
     (if map_of (cookies req) ''auth'' = Some ''true''
      then build_response ev resp
             (if path req = Some ''/'' then req\<lparr>path := Some ''/index.html''\<rparr> else req)
      else Inr (build_error_response 401 ''Unauthorized - Please login first''))"

text \<open>The packet \<open>handle_client\<close> builds from what the route handler returned.\<close>

definition hook_packet :: "env \<Rightarrow> request \<Rightarrow> pyval \<Rightarrow> exn + bytes" where
  "hook_packet ev req result =
     (case result of
        RespVal r \<Rightarrow> build_response ev r req
      | DictVal b \<Rightarrow>
          Inr (encode (''HTTP/1.1 200 OK'' @ CRLF @ ''Content-Type: application/json'' @ CRLF
                       @ ''Content-Length: '' @ str_nat (length b) @ CRLF @ CRLF @ b))
      | OtherVal b \<Rightarrow>
          Inr (encode (''HTTP/1.1 200 OK'' @ CRLF @ ''Content-Type: text/plain'' @ CRLF
                       @ ''Content-Length: '' @ str_nat (length b) @ CRLF @ CRLF @ b)))"

text \<open>
  What happens on the connection, in order. \<open>handle_try\<close> is the body of the \<open>try\<close> of
  \<open>handle_client\<close> on the decoded text \<open>raw\<close> that \<open>recv\<close> gave, with a fresh
  \<open>Request\<close> and \<open>Response\<close>; every exception arises before anything is sent.
  \<open>handle_client\<close> adds the \<open>except\<close> and the \<open>finally\<close>.
\<close>

datatype event = Sendall bytes | Close

definition handle_try :: "env \<Rightarrow> routes \<Rightarrow> string \<Rightarrow> exn + event list" where
  "handle_try ev rts raw =
     (if raw = [] then Inr [Close]
      else case prepare raw rts of
             Inl e \<Rightarrow> Inl e
           | Inr req \<Rightarrow>
               (case hook req of
                  Some _ \<Rightarrow>
                    (case call_hook req of
                       Inl e \<Rightarrow> Inl e
                     | Inr result \<Rightarrow>
                         (case hook_packet ev req result of
                            Inl e \<Rightarrow> Inl e
                          | Inr packet \<Rightarrow> Inr [Sendall packet, Close]))
                | None \<Rightarrow>
                    if method req = Some ''POST'' \<and> path req = Some ''/login''
                    then (case handle_login ev req new_response of
                            Inl e \<Rightarrow> Inl e
                          | Inr packet \<Rightarrow> Inr [Sendall packet, Close])
                    else if path req = Some ''/'' \<or> path req = Some ''/index.html''
                    then (case handle_protected_route ev req new_response of
                            Inl e \<Rightarrow> Inl e
                          | Inr packet \<Rightarrow> Inr [Sendall packet, Close])
                    else (case build_response ev new_response req of
                            Inl e \<Rightarrow> Inl e
                          | Inr packet \<Rightarrow> Inr [Sendall packet])))"

definition handle_client :: "env \<Rightarrow> routes \<Rightarrow> string \<Rightarrow> event list" where
  "handle_client ev rts raw =
     (case handle_try ev rts raw of
        Inl e \<Rightarrow> [Sendall (build_error_response 500 (''Internal Server Error: '' @ exn_str e))]
      | Inr evs \<Rightarrow> evs) @ [Close]"

section \<open>An example environment and example handlers\<close>

text \<open>
  A few entries of the table \<open>mimetypes.guess_type\<close> consults, a file system given as
  a list of paths with what reading each gives (any other path does not exist), and a
  fixed clock.
\<close>

definition sample_guess :: "string \<Rightarrow> string option" where
  "sample_guess p =
     (if suffix ''.html'' p then Some ''text/html''
      else if suffix ''.css'' p then Some ''text/css''
      else if suffix ''.js'' p then Some ''text/javascript''
      else if suffix ''.png'' p then Some ''image/png''
      else if suffix ''.txt'' p then Some ''text/plain''
      else if suffix ''.pdf'' p then Some ''application/pdf''
      else if suffix ''.mp3'' p then Some ''audio/mpeg''
      else None)"

definition sample_env :: "(string \<times> file_result) list \<Rightarrow> env" where
  "sample_env files =
     \<lparr>guess_type = sample_guess,
      open_read = (\<lambda>p. case map_of files p of None \<Rightarrow> FileNotFound | Some r \<Rightarrow> r),
      utcnow = ''Tue, 03 Nov 2026 12:00:00 GMT''\<rparr>"

text \<open>
  The request line is malformed when \<open>request.splitlines()[0].split()\<close> does not give
  exactly three tokens (or there is no first line at all).
\<close>

definition malformed_request_line :: "string \<Rightarrow> bool" where
  "malformed_request_line raw =
     (case splitlines raw of [] \<Rightarrow> True | first # _ \<Rightarrow> length (split_ws first) \<noteq> 3)"

text \<open>
  \<open>hello\<close> of \<open>apps/sampleApp.py\<close>, declared \<open>def hello(headers=None, body=None)\<close>: it
  returns the same \<open>dict\<close> however it is called.
\<close>

definition hello_result :: pyval where
  "hello_result = DictVal (''{'' @ [APOS] @ ''message'' @ [APOS] @ '': '' @ [APOS]
                           @ ''Hello from SampleApp!'' @ [APOS] @ ''}'')"

definition hello :: handler where
  "hello = \<lparr>co_varnames = Some [''headers'', ''body''], call = (\<lambda>_. Inr hello_result)\<rparr>"

text \<open>A handler \<open>def blank(): return Response()\<close>, which returns a response without content.\<close>

definition blank :: handler where
  "blank = \<lparr>co_varnames = Some [],
            call = (\<lambda>a. case a of
                            NoArgs \<Rightarrow> Inr (RespVal new_response)
                          | KwBody _ \<Rightarrow> Inl (TypeError (''blank() got an unexpected keyword argument ''
                                                        @ [APOS] @ ''body'' @ [APOS]))
                          | PosReq _ \<Rightarrow> Inl (TypeError ''blank() takes 0 positional arguments but 1 was given''))\<rparr>"

text \<open>
  A handler whose only parameter is \<open>req\<close> and which keeps the body in a local variable:
  \<^verbatim>\<open>
  def show_body(req):
      body = req.body
      return body
  \<close>
  Its \<open>co_varnames\<close> are the parameter followed by the local variable.
\<close>

definition show_body :: handler where
  "show_body = \<lparr>co_varnames = Some [''req'', ''body''],
                call = (\<lambda>a. case a of
                                PosReq r \<Rightarrow> Inr (OtherVal (body r))
                              | KwBody _ \<Rightarrow> Inl (TypeError (''show_body() got an unexpected keyword argument ''
                                                            @ [APOS] @ ''body'' @ [APOS]))
                              | NoArgs \<Rightarrow> Inl (TypeError (''show_body() missing 1 required positional argument: ''
                                                          @ [APOS] @ ''req'' @ [APOS])))\<rparr>"

section \<open>Facts about the text primitives\<close>

lemma encode_append: "encode (a @ b) = encode a @ encode b"
  by (simp add: encode_def)

lemma join_first: "ys \<noteq> [] \<Longrightarrow> join sep (x # ys) = x @ sep @ join sep ys"
  by (cases ys) simp_all

section \<open>The response header block\<close>

lemma header_shape:
  "encode (join CRLF ([x] @ A @ B @ [z]) @ CRLF)
     = encode (x @ CRLF) @ encode (join CRLF (A @ B @ [z]) @ CRLF)"
proof -
  have "join CRLF ([x] @ A @ B @ [z]) = x @ CRLF @ join CRLF (A @ B @ [z])"
    by (simp add: join_first)
  then have "encode (join CRLF ([x] @ A @ B @ [z]) @ CRLF)
               = encode ((x @ CRLF) @ (join CRLF (A @ B @ [z]) @ CRLF))"
    by simp
  also have "\<dots> = encode (x @ CRLF) @ encode (join CRLF (A @ B @ [z]) @ CRLF)"
    by (rule encode_append)
  finally show ?thesis .
qed

text \<open>Whatever the request and the content, the block starts with the literal status line.\<close>

lemma header_status_line:
  "\<exists>rest. build_response_header ev resp req cont = ''HTTP/1.1 200 OK'' @ CRLF @ rest"
proof -
  have e: "encode (''HTTP/1.1 200 OK'' @ CRLF) = ''HTTP/1.1 200 OK'' @ CRLF" by code_simp
  show ?thesis
    unfolding build_response_header_def Let_def
    by (simp only: header_shape e append_assoc) blast
qed

lemma header_prefix: "prefix (''HTTP/1.1 200 OK'' @ CRLF) (build_response_header ev resp req cont @ cont')"
proof -
  obtain rest where "build_response_header ev resp req cont = ''HTTP/1.1 200 OK'' @ CRLF @ rest"
    using header_status_line by blast
  then have "build_response_header ev resp req cont @ cont'
               = (''HTTP/1.1 200 OK'' @ CRLF) @ (rest @ cont')"
    by simp
  then show ?thesis by (simp only: prefixI)
qed

lemma build_notfound_text:
  "build_notfound =
     ''HTTP/1.1 404 Not Found'' @ CRLF @
     ''Accept-Ranges: bytes'' @ CRLF @
     ''Content-Type: text/html'' @ CRLF @
     ''Content-Length: 13'' @ CRLF @
     ''Cache-Control: max-age=86000'' @ CRLF @
     ''Connection: close'' @ CRLF @
     CRLF @
     ''404 Not Found''"
  by code_simp

lemma error_text_not_sentinel: "encode (''Error reading file: '' @ msg) \<noteq> ''File not found''"
proof -
  have "encode ''Error reading file: '' = ''Error reading file: ''" by code_simp
  then have "encode (''Error reading file: '' @ msg) = ''Error reading file: '' @ encode msg"
    by (simp only: encode_append)
  then show ?thesis by simp
qed

section \<open>Static serving: missing files and unreadable files\<close>

text \<open>
  Claim C6, as the code has it. A static request (a response without dynamic content, a
  request with a path) for which \<open>build_response\<close> chose a base directory and for whose
  resolved file \<open>open\<close> raises \<open>FileNotFoundError\<close>: \<open>build_content\<close> returns size 0 with
  the sentinel body \<open>File not found\<close>, and \<open>build_response\<close> turns that into the fixed
  404 envelope, whose status line is \<open>HTTP/1.1 404 Not Found\<close>, whose Content-Length is
  13 and whose body is the 13 characters \<open>404 Not Found\<close>. A file that does not exist
  and for which \<open>open\<close> raises another exception is not covered.
\<close>

theorem missing_file_gives_404:
  assumes "\<not> has_content resp"
    and "path req = Some p"
    and "choose_base resp p (get_mime_type ev (Some p)) = Inr (Some (resp', base))"
    and "open_read ev (resolve_path p base) = FileNotFound"
  shows "build_content ev p base = (0, ''File not found'')
       \<and> build_response ev resp req =
           Inr (''HTTP/1.1 404 Not Found'' @ CRLF @
                ''Accept-Ranges: bytes'' @ CRLF @
                ''Content-Type: text/html'' @ CRLF @
                ''Content-Length: 13'' @ CRLF @
                ''Cache-Control: max-age=86000'' @ CRLF @
                ''Connection: close'' @ CRLF @
                CRLF @
                ''404 Not Found'')
       \<and> length ''404 Not Found'' = 13"
  using assms build_notfound_text
  by (simp add: build_content_def build_response_def)

theorem missing_file_gives_404_witness:
  "\<not> has_content new_response
   \<and> path \<lparr>method = Some ''GET'', path = Some ''/missing.css'', version = Some ''HTTP/1.1'',
            headers = [], cookies = [], body = [], hook = None\<rparr> = Some ''/missing.css''
   \<and> choose_base new_response ''/missing.css'' (get_mime_type (sample_env []) (Some ''/missing.css''))
       = Inr (Some (new_response\<lparr>r_headers := [(''Content-Type'', ''text/css'')]\<rparr>, ''static/''))
   \<and> open_read (sample_env []) (resolve_path ''/missing.css'' ''static/'') = FileNotFound
   \<and> build_content (sample_env []) ''/missing.css'' ''static/'' = (0, ''File not found'')
   \<and> build_response (sample_env []) new_response
         \<lparr>method = Some ''GET'', path = Some ''/missing.css'', version = Some ''HTTP/1.1'',
          headers = [], cookies = [], body = [], hook = None\<rparr>
       = Inr build_notfound"
proof -
  let ?req = "\<lparr>method = Some ''GET'', path = Some ''/missing.css'', version = Some ''HTTP/1.1'',
               headers = [], cookies = [], body = [], hook = None\<rparr>"
  have h1: "\<not> has_content new_response" by code_simp
  have h2: "path ?req = Some ''/missing.css''" by simp
  have h3: "choose_base new_response ''/missing.css'' (get_mime_type (sample_env []) (Some ''/missing.css''))
              = Inr (Some (new_response\<lparr>r_headers := [(''Content-Type'', ''text/css'')]\<rparr>, ''static/''))"
    by code_simp
  have h4: "open_read (sample_env []) (resolve_path ''/missing.css'' ''static/'') = FileNotFound"
    by (simp add: sample_env_def)
  show ?thesis
    using missing_file_gives_404 [OF h1 h2 h3 h4] h1 h2 h3 h4
    by (simp only: build_notfound_text simp_thms)
qed

text \<open>
  The claim as the specification states it, for every request whose resolved file does
  not exist, fails for \<open>GET /index.html/x.html\<close> when \<open>www/index.html\<close> is a regular
  file: the resolved file \<open>www/index.html/x.html\<close> does not exist, \<open>open\<close> raises
  \<open>NotADirectoryError\<close>, only \<open>FileNotFoundError\<close> gives the sentinel, and the answer is
  \<open>200 OK\<close> with the text of the error as its body.
\<close>

theorem missing_file_below_a_file_gives_200:
  "resolve_path ''/index.html/x.html'' ''www/'' = ''www/index.html/x.html''
   \<and> handle_client
         (sample_env [(''www/index.html'', FileData ''<h1>home</h1>''),
                      (''www/index.html/x.html'',
                       FileError (''[Errno 20] Not a directory: '' @ [APOS]
                                  @ ''www/index.html/x.html'' @ [APOS]))])
         [] (''GET /index.html/x.html HTTP/1.1'' @ CRLF @ CRLF)
       = [Sendall (''HTTP/1.1 200 OK'' @ CRLF
            @ ''Accept: application/json'' @ CRLF
            @ ''Accept-Language: en-US,en;q=0.9'' @ CRLF
            @ ''Authorization: Basic <credentials>'' @ CRLF
            @ ''Cache-Control: no-cache'' @ CRLF
            @ ''Content-Type: text/html'' @ CRLF
            @ ''Content-Length: 71'' @ CRLF
            @ ''Date: Tue, 03 Nov 2026 12:00:00 GMT'' @ CRLF
            @ ''Max-Forward: 10'' @ CRLF
            @ ''Pragma: no-cache'' @ CRLF
            @ ''Proxy-Authorization: Basic dXNlcjpwYXNz'' @ CRLF
            @ ''Warning: 199 Miscellaneous warning'' @ CRLF
            @ ''User-Agent: Chrome/123.0.0.0'' @ CRLF
            @ CRLF
            @ ''Error reading file: [Errno 20] Not a directory: '' @ [APOS]
            @ ''www/index.html/x.html'' @ [APOS]),
          Close]"
  by code_simp

text \<open>
  Claim C7. When reading the resolved file fails for another reason than the file being
  missing, \<open>build_response\<close> still answers with the ordinary header block, whose status
  line is the literal \<open>HTTP/1.1 200 OK\<close>, and the body is the text of the error.
\<close>

theorem read_error_keeps_status:
  assumes "\<not> has_content resp"
    and "path req = Some p"
    and "choose_base resp p (get_mime_type ev (Some p)) = Inr (Some (resp', base))"
    and "open_read ev (resolve_path p base) = FileError msg"
  shows "\<exists>packet. build_response ev resp req = Inr packet
           \<and> packet = build_response_header ev resp' req (encode (''Error reading file: '' @ msg))
                      @ encode (''Error reading file: '' @ msg)
           \<and> prefix (''HTTP/1.1 200 OK'' @ CRLF) packet"
  using assms error_text_not_sentinel [of msg] header_prefix
  by (simp add: build_content_def build_response_def)

theorem read_error_keeps_status_witness:
  "\<not> has_content new_response
   \<and> path \<lparr>method = Some ''GET'', path = Some ''/logo.png'', version = Some ''HTTP/1.1'',
            headers = [], cookies = [], body = [], hook = None\<rparr> = Some ''/logo.png''
   \<and> choose_base new_response ''/logo.png''
         (get_mime_type (sample_env [(''static/logo.png'', FileError ''[Errno 13] Permission denied'')])
                        (Some ''/logo.png''))
       = Inr (Some (new_response\<lparr>r_headers := [(''Content-Type'', ''image/png'')]\<rparr>, ''static/''))
   \<and> open_read (sample_env [(''static/logo.png'', FileError ''[Errno 13] Permission denied'')])
         (resolve_path ''/logo.png'' ''static/'') = FileError ''[Errno 13] Permission denied''
   \<and> (\<exists>packet. build_response (sample_env [(''static/logo.png'', FileError ''[Errno 13] Permission denied'')])
          new_response
          \<lparr>method = Some ''GET'', path = Some ''/logo.png'', version = Some ''HTTP/1.1'',
           headers = [], cookies = [], body = [], hook = None\<rparr> = Inr packet
        \<and> prefix (''HTTP/1.1 200 OK'' @ CRLF) packet)"
proof -
  let ?ev = "sample_env [(''static/logo.png'', FileError ''[Errno 13] Permission denied'')]"
  let ?req = "\<lparr>method = Some ''GET'', path = Some ''/logo.png'', version = Some ''HTTP/1.1'',
               headers = [], cookies = [], body = [], hook = None\<rparr>"
  have h1: "\<not> has_content new_response" by code_simp
  have h2: "path ?req = Some ''/logo.png''" by simp
  have h3: "choose_base new_response ''/logo.png'' (get_mime_type ?ev (Some ''/logo.png''))
              = Inr (Some (new_response\<lparr>r_headers := [(''Content-Type'', ''image/png'')]\<rparr>, ''static/''))"
    by code_simp
  have h4: "open_read ?ev (resolve_path ''/logo.png'' ''static/'') = FileError ''[Errno 13] Permission denied''"
    by code_simp
  show ?thesis
    using read_error_keeps_status [OF h1 h2 h3 h4] h1 h2 h3 h4
    by blast
qed

section \<open>A malformed request line\<close>

lemma malformed_request_line_try:
  assumes "malformed_request_line raw"
  shows "\<exists>e. request_line_try raw = Inl e"
proof (cases "splitlines raw")
  case Nil
  then show ?thesis by (simp add: request_line_try_def)
next
  case (Cons l ls)
  with assms have "length (split_ws l) \<noteq> 3" by (simp add: malformed_request_line_def)
  with Cons show ?thesis
    by (auto simp: request_line_try_def split: list.splits)
qed

lemma malformed_extract:
  "malformed_request_line raw \<Longrightarrow> extract_request_line raw = (None, None, None)"
  using malformed_request_line_try [of raw] by (auto simp: extract_request_line_def)

lemma malformed_prepare:
  assumes "malformed_request_line raw"
  shows "prepare raw rts =
           (case rts of
              [] \<Rightarrow> Inr \<lparr>method = None, path = None, version = None,
                         headers = prepare_headers raw,
                         cookies = parse_cookies (prepare_headers raw), body = [], hook = None\<rparr>
            | _ # _ \<Rightarrow> Inl (none_has_no_attribute ''split''))"
  using malformed_extract [OF assms]
  by (simp add: prepare_def lookup_hook_def Let_def split: list.splits)

text \<open>
  What the code does on every buffer with a malformed request line. The parser returns
  the absent triple and the worker goes on with it; the first use of the absent path
  then raises \<open>AttributeError\<close> (in \<open>prepare\<close>, at \<open>self.path.split\<close>, when the route table
  is not empty; otherwise in \<open>build_response\<close>, at \<open>path.endswith\<close>), before the final
  \<open>else\<close> of \<open>build_response\<close>, which answers with the 404 envelope, is reached. The
  \<open>except\<close> of \<open>handle_client\<close> turns the exception into a 500 envelope. For an empty
  buffer nothing is sent.
\<close>

lemma malformed_request_line_dereferences_none:
  assumes "malformed_request_line raw"
  shows "extract_request_line raw = (None, None, None)
       \<and> handle_client ev rts raw =
           (if raw = [] then [Close, Close]
            else [Sendall (build_error_response 500
                    (''Internal Server Error: '' @
                     exn_str (none_has_no_attribute (case rts of [] \<Rightarrow> ''endswith'' | _ # _ \<Rightarrow> ''split'')))),
                  Close])"
proof -
  have "has_content new_response = False" by (simp add: has_content_def new_response_def)
  then show ?thesis
    using malformed_extract [OF assms] malformed_prepare [OF assms, of rts]
    by (simp add: handle_client_def handle_try_def build_response_def split: list.splits)
qed

text \<open>
  Claim C1 says that a buffer whose first line does not split into exactly three tokens
  gives absent method, path and version and is answered with the fixed 404 envelope. The
  code, run on the one-token buffer \<open>GARBAGE\<close>: extraction returns the absent triple, as
  the claim says, but the packet sent starts with \<open>HTTP/1.1 500 Internal Server Error\<close>
  and carries the text of the \<open>AttributeError\<close>, with an empty route table (raised at
  \<open>path.endswith\<close>) and with a route table that registers \<open>hello\<close> (raised at
  \<open>self.path.split\<close>); it is not the 404 envelope.
\<close>

theorem malformed_request_line_not_404:
  "malformed_request_line ''GARBAGE''
   \<and> extract_request_line ''GARBAGE'' = (None, None, None)
   \<and> get_mime_type (sample_env []) None = ''application/octet-stream''
   \<and> handle_client (sample_env []) [] ''GARBAGE'' =
        [Sendall (build_error_response 500
           (''Internal Server Error: '' @ exn_str (none_has_no_attribute ''endswith''))), Close]
   \<and> handle_client (sample_env []) [((''GET'', ''/hello''), hello)] ''GARBAGE'' =
        [Sendall (build_error_response 500
           (''Internal Server Error: '' @ exn_str (none_has_no_attribute ''split''))), Close]
   \<and> prefix ''HTTP/1.1 500 Internal Server Error''
        (build_error_response 500
           (''Internal Server Error: '' @ exn_str (none_has_no_attribute ''endswith'')))
   \<and> prefix ''HTTP/1.1 500 Internal Server Error''
        (build_error_response 500
           (''Internal Server Error: '' @ exn_str (none_has_no_attribute ''split'')))
   \<and> build_error_response 500
           (''Internal Server Error: '' @ exn_str (none_has_no_attribute ''endswith'')) \<noteq> build_notfound
   \<and> build_error_response 500
           (''Internal Server Error: '' @ exn_str (none_has_no_attribute ''split'')) \<noteq> build_notfound"
  by code_simp

section \<open>Request headers in the response header block\<close>

text \<open>\<open>lower\<close> leaves no ASCII capital, so no stored header name starts with one.\<close>

lemma lower_char_not_capital:
  "\<not> (65 \<le> (of_char (lower_char c) :: nat) \<and> (of_char (lower_char c) :: nat) \<le> 90)"
proof -
  have "(of_char c :: nat) < 256" by simp
  then show ?thesis
    by (auto simp: lower_char_def Let_def)
qed

lemma lower_no_capital:
  assumes "k \<noteq> []" and "65 \<le> (of_char (hd k) :: nat)" and "(of_char (hd k) :: nat) \<le> 90"
  shows "lower s \<noteq> k"
proof
  assume "lower s = k"
  with assms(1) obtain c cs where "s = c # cs" and "hd k = lower_char c"
    by (cases s) (auto simp: lower_def)
  with assms(2,3) lower_char_not_capital [of c] show False by simp
qed

lemma prepare_headers_keys:
  "fst ` set (fold (\<lambda>line hs. case partition_at '': '' line of
                        None \<Rightarrow> hs
                      | Some (k, v) \<Rightarrow> AList.update (lower k) v hs) ls hs0)
     \<subseteq> fst ` set hs0 \<union> range lower"
proof (induction ls arbitrary: hs0)
  case Nil
  then show ?case by simp
next
  case (Cons l ls)
  show ?case
  proof (cases "partition_at '': '' l")
    case None
    with Cons.IH [of hs0] show ?thesis by simp
  next
    case (Some kv)
    obtain k v where kv: "kv = (k, v)" by (cases kv)
    have "fst ` set (AList.update (lower k) v hs0) = insert (lower k) (fst ` set hs0)"
      by (simp add: dom_update)
    with Cons.IH [of "AList.update (lower k) v hs0"] Some kv show ?thesis by auto
  qed
qed

lemma prepare_headers_lower_keys:
  assumes "map_of (prepare_headers raw) k = Some v"
  shows "\<exists>k'. k = lower k'"
proof -
  from assms have "k \<in> fst ` set (prepare_headers raw)"
    by (force dest: map_of_SomeD)
  with prepare_headers_keys [of "tl (split_on CRLF raw)" "[]"] show ?thesis
    by (auto simp: prepare_headers_def)
qed

lemma capital_key_absent:
  assumes "k \<noteq> []" and "65 \<le> (of_char (hd k) :: nat)" and "(of_char (hd k) :: nat) \<le> 90"
  shows "dict_get (prepare_headers raw) k dflt = dflt"
proof (cases "map_of (prepare_headers raw) k")
  case None
  then show ?thesis by (simp add: dict_get_def)
next
  case (Some v)
  then obtain k' where "k = lower k'" using prepare_headers_lower_keys by blast
  with lower_no_capital [OF assms, of k'] show ?thesis by simp
qed

lemma prepare_headers_field: "prepare raw rts = Inr req \<Longrightarrow> headers req = prepare_headers raw"
  by (auto simp: prepare_def Let_def split: prod.splits sum.splits)

text \<open>
  \<open>build_response_header\<close> looks the four names up as \<open>Accept\<close>, \<open>Accept-Language\<close>,
  \<open>Authorization\<close> and \<open>User-Agent\<close> in a plain \<open>dict\<close> whose keys \<open>prepare_headers\<close>
  lower-cased: for a parsed request the lookups never succeed, and the block is the one
  of a request without headers.
\<close>

lemma header_block_never_echoes:
  assumes "prepare raw rts = Inr req"
  shows "build_response_header ev resp req cont = build_response_header ev resp (req\<lparr>headers := []\<rparr>) cont"
proof -
  have h: "headers req = prepare_headers raw" using assms by (rule prepare_headers_field)
  have a: "dict_get (prepare_headers raw) ''Accept'' d = d" for d
    by (rule capital_key_absent) simp_all
  have b: "dict_get (prepare_headers raw) ''Accept-Language'' d = d" for d
    by (rule capital_key_absent) simp_all
  have c: "dict_get (prepare_headers raw) ''Authorization'' d = d" for d
    by (rule capital_key_absent) simp_all
  have d: "dict_get (prepare_headers raw) ''User-Agent'' d = d" for d
    by (rule capital_key_absent) simp_all
  show ?thesis
    unfolding build_response_header_def Let_def
    by (simp only: h a b c d) (simp add: dict_get_def)
qed

text \<open>
  Claim C2 says that the header block echoes the client's Accept, Accept-Language,
  Authorization and User-Agent when the request has them. The code, run on a request
  that sends all four: they are stored as \<open>accept\<close>, \<open>accept-language\<close>,
  \<open>authorization\<close> and \<open>user-agent\<close>, and the response carries the four fallback
  defaults, not the values sent.
\<close>

theorem sent_headers_are_defaults:
  "prepare_headers (''GET /page.html HTTP/1.1'' @ CRLF @ ''Accept: text/html'' @ CRLF
        @ ''Accept-Language: vi'' @ CRLF @ ''Authorization: Bearer t'' @ CRLF
        @ ''User-Agent: curl/8.0'' @ CRLF @ CRLF)
     = [(''accept'', ''text/html''), (''accept-language'', ''vi''),
        (''authorization'', ''Bearer t''), (''user-agent'', ''curl/8.0'')]
   \<and> handle_client (sample_env [(''www/page.html'', FileData ''<p>hi</p>'')]) []
       (''GET /page.html HTTP/1.1'' @ CRLF @ ''Accept: text/html'' @ CRLF
        @ ''Accept-Language: vi'' @ CRLF @ ''Authorization: Bearer t'' @ CRLF
        @ ''User-Agent: curl/8.0'' @ CRLF @ CRLF)
     = [Sendall (''HTTP/1.1 200 OK'' @ CRLF
          @ ''Accept: application/json'' @ CRLF
          @ ''Accept-Language: en-US,en;q=0.9'' @ CRLF
          @ ''Authorization: Basic <credentials>'' @ CRLF
          @ ''Cache-Control: no-cache'' @ CRLF
          @ ''Content-Type: text/html'' @ CRLF
          @ ''Content-Length: 9'' @ CRLF
          @ ''Date: Tue, 03 Nov 2026 12:00:00 GMT'' @ CRLF
          @ ''Max-Forward: 10'' @ CRLF
          @ ''Pragma: no-cache'' @ CRLF
          @ ''Proxy-Authorization: Basic dXNlcjpwYXNz'' @ CRLF
          @ ''Warning: 199 Miscellaneous warning'' @ CRLF
          @ ''User-Agent: Chrome/123.0.0.0'' @ CRLF
          @ CRLF
          @ ''<p>hi</p>''),
        Close]"
  by code_simp

section \<open>The status line of a response built from a route handler's result\<close>

lemma prepare_empty_no_hook:
  assumes "prepare [] rts = Inr req"
  shows "hook req = None"
proof -
  have "extract_request_line [] = (None, None, None)"
    by (simp add: extract_request_line_def request_line_try_def splitlines_def)
  with assms show ?thesis
    by (auto simp: prepare_def lookup_hook_def Let_def split: list.splits sum.splits)
qed

lemma status_200_encoded:
  "prefix (''HTTP/1.1 200 OK'' @ CRLF) (encode (''HTTP/1.1 200 OK'' @ CRLF @ rest))"
proof -
  have "encode (''HTTP/1.1 200 OK'' @ CRLF) = ''HTTP/1.1 200 OK'' @ CRLF" by code_simp
  then have "encode ((''HTTP/1.1 200 OK'' @ CRLF) @ rest) = (''HTTP/1.1 200 OK'' @ CRLF) @ encode rest"
    by (simp only: encode_append)
  then show ?thesis by (simp only: append_assoc prefixI)
qed

lemma hook_packet_status_200:
  assumes "case result of RespVal r \<Rightarrow> has_content r | DictVal _ \<Rightarrow> True | OtherVal _ \<Rightarrow> True"
  shows "\<exists>packet. hook_packet ev req result = Inr packet \<and> prefix (''HTTP/1.1 200 OK'' @ CRLF) packet"
proof (cases result)
  case (RespVal r)
  with assms have "has_content r" by simp
  then have "\<exists>c r'. build_response ev r req = Inr (build_response_header ev r' req c @ c)"
    by (simp add: build_response_def Let_def) blast
  with RespVal show ?thesis using header_prefix by (auto simp: hook_packet_def)
next
  case (DictVal b)
  then show ?thesis using status_200_encoded by (simp add: hook_packet_def)
next
  case (OtherVal b)
  then show ?thesis using status_200_encoded by (simp add: hook_packet_def)
qed

text \<open>
  Claim C3, as the code has it. When the request matched a route handler and the handler
  returned a \<open>dict\<close>, any value that is not a \<open>Response\<close>, or a \<open>Response\<close> that carries
  non-empty content, the packet sent starts with the literal status line
  \<open>HTTP/1.1 200 OK\<close>, whatever the result describes. A returned \<open>Response\<close> without
  content is not covered: \<open>build_response\<close> treats it as a static request for the path.
\<close>

theorem hook_result_status_200:
  assumes "prepare raw rts = Inr req"
    and "hook req = Some h"
    and "call_hook req = Inr result"
    and "case result of RespVal r \<Rightarrow> has_content r | DictVal _ \<Rightarrow> True | OtherVal _ \<Rightarrow> True"
  shows "\<exists>packet. handle_client ev rts raw = [Sendall packet, Close, Close]
           \<and> prefix (''HTTP/1.1 200 OK'' @ CRLF) packet"
proof -
  have "raw \<noteq> []" using assms(1,2) prepare_empty_no_hook by fastforce
  moreover obtain packet where "hook_packet ev req result = Inr packet"
      and "prefix (''HTTP/1.1 200 OK'' @ CRLF) packet"
    using hook_packet_status_200 [OF assms(4)] by blast
  ultimately show ?thesis
    using assms(1-3) by (simp add: handle_client_def handle_try_def)
qed

theorem hook_result_status_200_witness:
  "prepare (''GET /hello HTTP/1.1'' @ CRLF @ CRLF) [((''GET'', ''/hello''), hello)]
     = Inr \<lparr>method = Some ''GET'', path = Some ''/hello'', version = Some ''HTTP/1.1'',
            headers = [], cookies = [], body = [], hook = Some hello\<rparr>
   \<and> call_hook \<lparr>method = Some ''GET'', path = Some ''/hello'', version = Some ''HTTP/1.1'',
            headers = [], cookies = [], body = [], hook = Some hello\<rparr> = Inr hello_result
   \<and> (\<exists>packet. handle_client (sample_env []) [((''GET'', ''/hello''), hello)]
                   (''GET /hello HTTP/1.1'' @ CRLF @ CRLF) = [Sendall packet, Close, Close]
          \<and> prefix (''HTTP/1.1 200 OK'' @ CRLF) packet)"
proof -
  let ?req = "\<lparr>method = Some ''GET'', path = Some ''/hello'', version = Some ''HTTP/1.1'',
            headers = [], cookies = [], body = [], hook = Some hello\<rparr>"
  define raw where "raw = ''GET /hello HTTP/1.1'' @ CRLF @ CRLF"
  have e: "extract_request_line raw = (Some ''GET'', Some ''/hello'', Some ''HTTP/1.1'')"
    unfolding raw_def by code_simp
  have r: "route_path ''/hello'' = ''/hello''" by code_simp
  have p: "prepare_headers raw = []" unfolding raw_def by code_simp
  have c: "parse_cookies [] = []" by code_simp
  have h1: "prepare raw [((''GET'', ''/hello''), hello)] = Inr ?req"
    by (simp add: prepare_def lookup_hook_def e r p c)
  have h2: "hook ?req = Some hello" by simp
  have h3: "call_hook ?req = Inr hello_result" by code_simp
  have h4: "case hello_result of RespVal r \<Rightarrow> has_content r | DictVal _ \<Rightarrow> True | OtherVal _ \<Rightarrow> True"
    by (simp add: hello_result_def)
  show ?thesis
    using hook_result_status_200 [OF h1 h2 h3 h4, of "sample_env []"] h1 h3
    unfolding raw_def by blast
qed

text \<open>
  The claim as the specification states it, for every return value including every
  pre-built \<open>Response\<close>, fails for the handler \<open>blank\<close>, which returns a \<open>Response\<close> without
  content: the request matched the route, and the packet sent is the 404 envelope.
\<close>

theorem blank_response_gives_404:
  "handle_client (sample_env []) [((''GET'', ''/blank''), blank)] (''GET /blank HTTP/1.1'' @ CRLF @ CRLF)
     = [Sendall build_notfound, Close, Close]
   \<and> prefix ''HTTP/1.1 404 Not Found'' build_notfound
   \<and> \<not> prefix ''HTTP/1.1 200 OK'' build_notfound"
  by code_simp

section \<open>Choosing how to call a route handler\<close>

text \<open>
  Claim C4 says that the way a handler is called is chosen from its declared parameter
  names. \<open>_call_hook\<close> reads \<open>co_varnames\<close>, which lists the parameters and then the local
  variables. The code, run on the handler \<open>show_body\<close>, which declares the one parameter
  \<open>req\<close> and has a local variable \<open>body\<close>: the body-only call is chosen, the call fails
  because the handler has no parameter \<open>body\<close>, and the client gets the 500 envelope.
  Called with the full request, as its parameter list asks, the handler returns the body.
\<close>

theorem local_body_variable_selects_body_call:
  "co_varnames show_body = Some [''req'', ''body'']
   \<and> call_hook \<lparr>method = Some ''POST'', path = Some ''/show'', version = Some ''HTTP/1.1'',
                 headers = [], cookies = [], body = ''hi'', hook = Some show_body\<rparr>
       = Inl (TypeError (''show_body() got an unexpected keyword argument '' @ [APOS] @ ''body'' @ [APOS]))
   \<and> call show_body (PosReq \<lparr>method = Some ''POST'', path = Some ''/show'', version = Some ''HTTP/1.1'',
                 headers = [], cookies = [], body = ''hi''\<rparr>) = Inr (OtherVal ''hi'')
   \<and> handle_client (sample_env []) [((''POST'', ''/show''), show_body)]
         (''POST /show HTTP/1.1'' @ CRLF @ CRLF @ ''hi'')
       = [Sendall (build_error_response 500
            (''Internal Server Error: show_body() got an unexpected keyword argument ''
             @ [APOS] @ ''body'' @ [APOS])), Close]"
  by code_simp


text \<open>
  For every handler the choice depends on \<open>co_varnames\<close> alone, not on the request, and
  the body-only call passes \<open>req.body\<close> as it is.
\<close>

lemma call_hook_by_varnames:
  assumes "hook req = Some h"
  shows "call_hook req =
           (if ''body'' \<in> set (case co_varnames h of None \<Rightarrow> [] | Some ns \<Rightarrow> ns)
            then call h (KwBody (body req))
            else if ''req'' \<in> set (case co_varnames h of None \<Rightarrow> [] | Some ns \<Rightarrow> ns)
            then call h (PosReq (request_view req))
            else call h NoArgs)"
  using assms by (simp add: call_hook_def)

section \<open>Splitting at a one-character separator\<close>

lemma partition_at_single_iff:
  "partition_at [c] s = Some (a, b) \<longleftrightarrow> s = a @ c # b \<and> c \<notin> set a"
proof (induction s arbitrary: a)
  case Nil
  then show ?case by simp
next
  case (Cons x xs)
  show ?case
  proof (cases "x = c")
    case True
    then show ?thesis by (cases a) auto
  next
    case False
    then show ?thesis using Cons.IH by (cases a) auto
  qed
qed

lemma partition_at_single_None: "partition_at [c] s = None \<longleftrightarrow> c \<notin> set s"
proof (induction s)
  case Nil
  then show ?case by simp
next
  case (Cons x xs)
  show ?case
  proof (cases "x = c")
    case True
    then show ?thesis by simp
  next
    case False
    then have "partition_at [c] (x # xs) = map_option (\<lambda>(a, b). (x # a, b)) (partition_at [c] xs)"
      by simp
    with Cons.IH False show ?thesis by (simp del: partition_at.simps) 
  qed
qed

lemma split_once_single:
  "c \<notin> set a \<Longrightarrow> split_once [c] (a @ c # b) = [a, b]"
  using partition_at_single_iff [of c "a @ c # b" a b] by (simp add: split_once_def)

section \<open>Base directories of static serving\<close>

lemma prepare_content_type_base:
  assumes "CHR ''/'' \<notin> set main"
  shows "map_sum id snd (prepare_content_type resp (main @ ''/'' @ sub)) =
          (if main = ''text'' then Inr (if sub = ''html'' then ''www/'' else ''static/'')
           else if main = ''image'' then Inr ''static/''
           else if main = ''application'' then Inr (if sub = ''octet-stream'' then ''static/'' else ''apps/'')
           else Inl (ValueError (''Invalid MIME type: '' @ main @ ''/'' @ sub)))"
proof -
  have "split_once ''/'' (main @ ''/'' @ sub) = [main, sub]"
    using split_once_single [OF assms, of sub] by simp
  then show ?thesis by (simp add: prepare_content_type_def BASE_DIR_def)
qed

lemma prepare_content_type_no_slash:
  assumes "CHR ''/'' \<notin> set mime"
  shows "prepare_content_type resp mime = Inl (ValueError ''not enough values to unpack (expected 2, got 1)'')"
proof -
  have "partition_at ''/'' mime = None" using assms by (simp add: partition_at_single_None)
  then show ?thesis by (simp add: prepare_content_type_def split_once_def)
qed

lemma choose_base_never_raises: "choose_base resp p mime \<noteq> Inl e"
proof -
  have a: "\<exists>x. prepare_content_type resp ''text/html'' = Inr x"
    using prepare_content_type_base [of "''text''" resp "''html''"]
    by (cases "prepare_content_type resp ''text/html''") auto
  have b: "\<exists>x. prepare_content_type resp ''text/css'' = Inr x"
    using prepare_content_type_base [of "''text''" resp "''css''"]
    by (cases "prepare_content_type resp ''text/css''") auto
  have c: "\<exists>x. prepare_content_type resp ''application/javascript'' = Inr x"
    using prepare_content_type_base [of "''application''" resp "''javascript''"]
    by (cases "prepare_content_type resp ''application/javascript''") auto
  have d: "\<exists>x. prepare_content_type resp mime = Inr x" if "prefix ''image/'' mime"
  proof -
    from that obtain sub where "mime = ''image'' @ ''/'' @ sub" by (auto simp: prefix_def)
    with prepare_content_type_base [of "''image''" resp sub] show ?thesis
      by (cases "prepare_content_type resp mime") auto
  qed
  have ok: "map_sum id Some r \<noteq> Inl e" if "\<exists>x. r = Inr x" for r :: "exn + (response \<times> string)"
    using that by auto
  consider (html) "suffix ''.html'' p \<or> mime = ''text/html''"
    | (css) "\<not> (suffix ''.html'' p \<or> mime = ''text/html'')" "mime = ''text/css''"
    | (js) "\<not> (suffix ''.html'' p \<or> mime = ''text/html'')" "mime \<noteq> ''text/css''"
           "suffix ''.js'' p \<or> mime = ''application/javascript'' \<or> mime = ''text/javascript''"
    | (image) "\<not> (suffix ''.html'' p \<or> mime = ''text/html'')" "mime \<noteq> ''text/css''"
           "\<not> (suffix ''.js'' p \<or> mime = ''application/javascript'' \<or> mime = ''text/javascript'')"
           "prefix ''image/'' mime"
    | (other) "\<not> (suffix ''.html'' p \<or> mime = ''text/html'')" "mime \<noteq> ''text/css''"
           "\<not> (suffix ''.js'' p \<or> mime = ''application/javascript'' \<or> mime = ''text/javascript'')"
           "\<not> prefix ''image/'' mime"
    by blast
  then show ?thesis
  proof cases
    case html
    then have "choose_base resp p mime = map_sum id Some (prepare_content_type resp ''text/html'')"
      unfolding choose_base_def by (simp only: if_True)
    with ok [OF a] show ?thesis by simp
  next
    case css
    then have "choose_base resp p mime = map_sum id Some (prepare_content_type resp ''text/css'')"
      unfolding choose_base_def by (simp only: if_True if_False refl)
    with ok [OF b] show ?thesis by simp
  next
    case js
    then have "choose_base resp p mime = map_sum id Some (prepare_content_type resp ''application/javascript'')"
      unfolding choose_base_def by (simp only: if_True if_False)
    with ok [OF c] show ?thesis by simp
  next
    case image
    then have "choose_base resp p mime = map_sum id Some (prepare_content_type resp mime)"
      unfolding choose_base_def by (simp only: if_True if_False)
    with ok [OF d [OF image(4)]] show ?thesis by simp
  next
    case other
    then have "choose_base resp p mime = Inr None"
      unfolding choose_base_def by (simp only: if_False)
    then show ?thesis by simp
  qed
qed

text \<open>
  Claim C5, as the code has it. \<open>prepare_content_type\<close> on a type \<open>main/sub\<close> gives the
  base directory \<open>www/\<close> for \<open>text/html\<close>, \<open>static/\<close> for every other \<open>text/*\<close> (so for
  \<open>text/css\<close>), \<open>static/\<close> for \<open>image/*\<close>, \<open>static/\<close> for \<open>application/octet-stream\<close> and
  \<open>apps/\<close> for every other \<open>application/*\<close> (so for \<open>application/javascript\<close>, the type
  \<open>build_response\<close> passes for JavaScript); any other main type raises \<open>ValueError\<close>
  there. \<open>build_response\<close> never reaches that failure: a static request whose path
  and guessed type match none of its html, css, javascript and image branches is
  answered with the 404 envelope, and its choice of a base directory never raises.
\<close>

theorem content_type_classification:
  "(CHR ''/'' \<notin> set main \<longrightarrow>
      map_sum id snd (prepare_content_type resp0 (main @ ''/'' @ sub)) =
        (if main = ''text'' then Inr (if sub = ''html'' then ''www/'' else ''static/'')
         else if main = ''image'' then Inr ''static/''
         else if main = ''application'' then Inr (if sub = ''octet-stream'' then ''static/'' else ''apps/'')
         else Inl (ValueError (''Invalid MIME type: '' @ main @ ''/'' @ sub))))
   \<and> (\<not> has_content resp \<and> path req = Some p
        \<and> \<not> (suffix ''.html'' p \<or> get_mime_type ev (Some p) = ''text/html'')
        \<and> get_mime_type ev (Some p) \<noteq> ''text/css''
        \<and> \<not> (suffix ''.js'' p \<or> get_mime_type ev (Some p) = ''application/javascript''
                \<or> get_mime_type ev (Some p) = ''text/javascript'')
        \<and> \<not> prefix ''image/'' (get_mime_type ev (Some p))
      \<longrightarrow> build_response ev resp req = Inr build_notfound)
   \<and> (\<forall>r q m e. choose_base r q m \<noteq> Inl e)"
proof (intro conjI impI)
  assume "CHR ''/'' \<notin> set main"
  then show "map_sum id snd (prepare_content_type resp0 (main @ ''/'' @ sub)) =
        (if main = ''text'' then Inr (if sub = ''html'' then ''www/'' else ''static/'')
         else if main = ''image'' then Inr ''static/''
         else if main = ''application'' then Inr (if sub = ''octet-stream'' then ''static/'' else ''apps/'')
         else Inl (ValueError (''Invalid MIME type: '' @ main @ ''/'' @ sub)))"
    by (rule prepare_content_type_base)
next
  assume "\<not> has_content resp \<and> path req = Some p
        \<and> \<not> (suffix ''.html'' p \<or> get_mime_type ev (Some p) = ''text/html'')
        \<and> get_mime_type ev (Some p) \<noteq> ''text/css''
        \<and> \<not> (suffix ''.js'' p \<or> get_mime_type ev (Some p) = ''application/javascript''
                \<or> get_mime_type ev (Some p) = ''text/javascript'')
        \<and> \<not> prefix ''image/'' (get_mime_type ev (Some p))"
  then show "build_response ev resp req = Inr build_notfound"
    by (simp add: build_response_def choose_base_def)
next
  show "\<forall>r q m e. choose_base r q m \<noteq> Inl e" using choose_base_never_raises by blast
qed

theorem content_type_classification_witness:
  "CHR ''/'' \<notin> set ''application''
   \<and> map_sum id snd (prepare_content_type new_response (''application'' @ ''/'' @ ''javascript'')) = Inr ''apps/''
   \<and> \<not> has_content new_response
   \<and> get_mime_type (sample_env []) (Some ''/song.mp3'') = ''audio/mpeg''
   \<and> build_response (sample_env []) new_response
        \<lparr>method = Some ''GET'', path = Some ''/song.mp3'', version = Some ''HTTP/1.1'',
         headers = [], cookies = [], body = [], hook = None\<rparr> = Inr build_notfound"
proof -
  let ?req = "\<lparr>method = Some ''GET'', path = Some ''/song.mp3'', version = Some ''HTTP/1.1'',
         headers = [], cookies = [], body = [], hook = None\<rparr>"
  have h1: "CHR ''/'' \<notin> set ''application''" by simp
  have m: "get_mime_type (sample_env []) (Some ''/song.mp3'') = ''audio/mpeg''" by code_simp
  have s1: "\<not> suffix ''.html'' ''/song.mp3''" by code_simp
  have s2: "\<not> suffix ''.js'' ''/song.mp3''" by code_simp
  have h2: "\<not> has_content new_response \<and> path ?req = Some ''/song.mp3''
        \<and> \<not> (suffix ''.html'' ''/song.mp3'' \<or> get_mime_type (sample_env []) (Some ''/song.mp3'') = ''text/html'')
        \<and> get_mime_type (sample_env []) (Some ''/song.mp3'') \<noteq> ''text/css''
        \<and> \<not> (suffix ''.js'' ''/song.mp3'' \<or> get_mime_type (sample_env []) (Some ''/song.mp3'') = ''application/javascript''
                \<or> get_mime_type (sample_env []) (Some ''/song.mp3'') = ''text/javascript'')
        \<and> \<not> prefix ''image/'' (get_mime_type (sample_env []) (Some ''/song.mp3''))"
    by (simp add: m s1 s2 has_content_def new_response_def)
  show ?thesis
    using content_type_classification [of "''application''" new_response "''javascript''"
            new_response ?req "''/song.mp3''" "sample_env []"] h1 h2 m
    by simp
qed

text \<open>
  The claim as the specification states it fails twice. For \<open>/app.js\<close> the base
  directory is \<open>apps/\<close>, not \<open>static/\<close>: with the file present only as
  \<open>static/app.js\<close> the answer is the 404 envelope. For \<open>/song.mp3\<close>, guessed as
  \<open>audio/mpeg\<close>, a family outside the closed set, the answer is the 404 envelope and
  not an invalid-argument failure.
\<close>

theorem javascript_base_is_apps:
  "choose_base new_response ''/app.js'' (get_mime_type (sample_env []) (Some ''/app.js''))
     = Inr (Some (new_response\<lparr>r_headers := [(''Content-Type'', ''application/javascript'')]\<rparr>, ''apps/''))
   \<and> build_response (sample_env [(''static/app.js'', FileData ''x=1'')]) new_response
        \<lparr>method = Some ''GET'', path = Some ''/app.js'', version = Some ''HTTP/1.1'',
         headers = [], cookies = [], body = [], hook = None\<rparr> = Inr build_notfound
   \<and> get_mime_type (sample_env []) (Some ''/song.mp3'') = ''audio/mpeg''
   \<and> build_response (sample_env []) new_response
        \<lparr>method = Some ''GET'', path = Some ''/song.mp3'', version = Some ''HTTP/1.1'',
         headers = [], cookies = [], body = [], hook = None\<rparr> = Inr build_notfound"
  by code_simp

section \<open>The route-lookup key\<close>

lemma extracted_path_not_root:
  assumes "extract_request_line raw = (m, Some p, v)"
  shows "p \<noteq> ''/''"
proof -
  from assms obtain m' p0 v' where "request_line_try raw = Inr (m', p0, v')" and "Some p0 = Some p"
    by (auto simp: extract_request_line_def split: sum.splits prod.splits)
  then show ?thesis
    by (auto simp: request_line_try_def split: list.splits if_splits)
qed

lemma route_path_root_iff:
  assumes "p \<noteq> ''/''"
  shows "route_path p = ''/'' \<longleftrightarrow> prefix ''/?'' p"
proof (cases "partition_at ''?'' p")
  case None
  then have "CHR ''?'' \<notin> set p" by (simp add: partition_at_single_None)
  then have "\<not> prefix ''/?'' p" by (auto simp: prefix_def)
  with None assms show ?thesis by (simp add: route_path_def split_once_def)
next
  case (Some ab)
  obtain a b where ab: "ab = (a, b)" by (cases ab)
  with Some have p: "p = a @ CHR ''?'' # b" and a: "CHR ''?'' \<notin> set a"
    by (simp_all add: partition_at_single_iff)
  have "route_path p = a" using Some ab by (simp add: route_path_def split_once_def)
  moreover have "a = ''/'' \<longleftrightarrow> prefix ''/?'' p"
  proof
    assume "a = ''/''" with p show "prefix ''/?'' p" by simp
  next
    assume "prefix ''/?'' p"
    then obtain r where "a @ CHR ''?'' # b = ''/?'' @ r" using p by (auto simp: prefix_def)
    with a show "a = ''/''" by (cases a; cases "tl a") auto
  qed
  ultimately show ?thesis by simp
qed

text \<open>
  Claim C10, as the code has it. The path \<open>extract_request_line\<close> returns is never
  exactly \<open>/\<close>, because of the rewrite to \<open>/index.html\<close>; but the key of the route lookup
  is that path cut at its first \<open>?\<close>, and it is \<open>/\<close> exactly when the path starts with
  \<open>/?\<close>. So a route registered under \<open>/\<close> is looked up for the requests whose path is
  the root followed by a query string, and for no other.
\<close>

theorem route_key_is_root_only_with_query:
  assumes "extract_request_line raw = (m, Some p, v)"
  shows "p \<noteq> ''/'' \<and> (route_path p = ''/'' \<longleftrightarrow> prefix ''/?'' p)"
  using extracted_path_not_root [OF assms] route_path_root_iff by blast

theorem route_key_is_root_only_with_query_witness:
  "extract_request_line (''GET / HTTP/1.1'' @ CRLF @ CRLF) = (Some ''GET'', Some ''/index.html'', Some ''HTTP/1.1'')
   \<and> route_path ''/index.html'' \<noteq> ''/''
   \<and> \<not> prefix ''/?'' ''/index.html''"
proof -
  have h: "extract_request_line (''GET / HTTP/1.1'' @ CRLF @ CRLF)
             = (Some ''GET'', Some ''/index.html'', Some ''HTTP/1.1'')" by code_simp
  have "\<not> prefix ''/?'' ''/index.html''" by simp
  with route_key_is_root_only_with_query [OF h] h show ?thesis by simp
qed

text \<open>
  The claim as the specification states it, that the lookup key is never \<open>/\<close> and a
  route registered under \<open>/\<close> is never dispatched, fails for \<open>GET /?x=1\<close>: the key is
  \<open>/\<close>, the handler \<open>hello\<close> registered under \<open>("GET", "/")\<close> is called, and its result
  is what the client receives.
\<close>

theorem root_route_dispatched_for_query:
  "extract_request_line (''GET /?x=1 HTTP/1.1'' @ CRLF @ CRLF) = (Some ''GET'', Some ''/?x=1'', Some ''HTTP/1.1'')
   \<and> route_path ''/?x=1'' = ''/''
   \<and> call hello (KwBody []) = Inr hello_result
   \<and> hook_packet (sample_env [])
        \<lparr>method = Some ''GET'', path = Some ''/?x=1'', version = Some ''HTTP/1.1'',
         headers = [], cookies = [], body = [], hook = Some hello\<rparr> hello_result
       = Inr (''HTTP/1.1 200 OK'' @ CRLF @ ''Content-Type: application/json'' @ CRLF
              @ ''Content-Length: 36'' @ CRLF @ CRLF
              @ ''{'' @ [APOS] @ ''message'' @ [APOS] @ '': '' @ [APOS]
              @ ''Hello from SampleApp!'' @ [APOS] @ ''}'')
   \<and> handle_client (sample_env []) [((''GET'', ''/''), hello)] (''GET /?x=1 HTTP/1.1'' @ CRLF @ CRLF)
       = [Sendall (''HTTP/1.1 200 OK'' @ CRLF @ ''Content-Type: application/json'' @ CRLF
                   @ ''Content-Length: 36'' @ CRLF @ CRLF
                   @ ''{'' @ [APOS] @ ''message'' @ [APOS] @ '': '' @ [APOS]
                   @ ''Hello from SampleApp!'' @ [APOS] @ ''}''),
          Close, Close]"
  by code_simp

section \<open>Cookies: from \<open>set_cookie\<close> back through \<open>parse_cookies\<close>\<close>

lemma split_on_single_none: "c \<notin> set s \<Longrightarrow> split_on [c] s = [s]"
proof -
  assume "c \<notin> set s"
  then have "partition_at [c] s = None" by (simp add: partition_at_single_None)
  then show ?thesis by (subst split_on.simps) simp
qed

lemma split_on_single_cons: "c \<notin> set a \<Longrightarrow> split_on [c] (a @ c # b) = a # split_on [c] b"
proof -
  assume "c \<notin> set a"
  then have "partition_at [c] (a @ c # b) = Some (a, b)" by (simp add: partition_at_single_iff)
  then show ?thesis by (subst split_on.simps) simp
qed

lemma str_nat_digits: "\<forall>c \<in> set (str_nat n). 48 \<le> (of_char c :: nat) \<and> (of_char c :: nat) \<le> 57"
proof (induction n rule: str_nat.induct)
  case (1 n)
  show ?case
  proof (cases "n < 10")
    case True
    then have "str_nat n = [char_of (48 + n)]" by (subst str_nat.simps) simp
    with True show ?thesis by simp
  next
    case False
    then have "str_nat n = str_nat (n div 10) @ [char_of (48 + n mod 10)]"
      by (subst str_nat.simps) simp
    moreover have "(48 + n mod 10) mod 256 = 48 + n mod 10" by simp
    ultimately show ?thesis using "1.IH" [OF False] by simp
  qed
qed

lemma str_int_no_semicolon: "CHR '';'' \<notin> set (str_int i)"
proof
  assume a: "CHR '';'' \<in> set (str_int i)"
  have "CHR '';'' \<noteq> CHR ''-''" by simp
  with a have "CHR '';'' \<in> set (str_nat (nat (- i))) \<or> CHR '';'' \<in> set (str_nat (nat i))"
    by (auto simp: str_int_def split: if_splits)
  then show False using str_nat_digits by fastforce
qed

lemma strip_id:
  assumes "s \<noteq> []" and "\<not> is_space (hd s)" and "\<not> is_space (last s)"
  shows "strip s = s"
proof -
  have "dropWhile is_space s = s" using assms(1,2) by (cases s) simp_all
  moreover have "dropWhile is_space (rev s) = rev s"
    using assms(1,3) by (cases "rev s") (simp_all add: last_rev [symmetric] hd_rev)
  ultimately show ?thesis by (simp add: strip_def)
qed

lemma rstrip_append:
  assumes "a \<noteq> []" and "\<not> is_space (last a)"
  shows "rev (dropWhile is_space (rev (a @ b))) = a @ rev (dropWhile is_space (rev b))"
proof -
  have ra: "dropWhile is_space (rev a) = rev a"
    using assms by (cases "rev a") (simp_all add: hd_rev)
  show ?thesis
  proof (cases "\<forall>x \<in> set (rev b). is_space x")
    case True
    then have "dropWhile is_space (rev b @ rev a) = dropWhile is_space (rev a)"
      by (intro dropWhile_append2) auto
    moreover from True have "dropWhile is_space (rev b) = []" by simp
    ultimately show ?thesis using ra by simp
  next
    case False
    then obtain x where "x \<in> set (rev b)" and "\<not> is_space x" by blast
    then have "dropWhile is_space (rev b @ rev a) = dropWhile is_space (rev b) @ rev a"
      by (rule dropWhile_append1)
    then show ?thesis by simp
  qed
qed

lemma space_is_space: "is_space CHR '' ''" by code_simp
lemma equals_not_space: "\<not> is_space CHR ''=''" by code_simp

text \<open>An attribute pair as \<open>set_cookie\<close> writes it: a blank, the attribute name, \<open>=\<close>, a value.\<close>

lemma attribute_pair:
  assumes "key \<noteq> []" and "\<not> is_space (hd key)" and "CHR ''='' \<notin> set key"
  shows "\<exists>x. partition_at ''='' (strip (CHR '' '' # key @ ''='' @ v)) = Some (key, x)"
proof -
  have "dropWhile is_space (CHR '' '' # key @ ''='' @ v) = (key @ ''='') @ v"
    using assms(1,2) space_is_space by (cases key) simp_all
  then have "strip (CHR '' '' # key @ ''='' @ v) = (key @ ''='') @ rev (dropWhile is_space (rev v))"
    using rstrip_append [of "key @ ''=''" v] equals_not_space by (simp add: strip_def)
  then show ?thesis using assms(3) by (simp add: partition_at_single_iff)
qed

lemma own_pair:
  assumes "CHR ''='' \<notin> set name"
    and "name = [] \<or> \<not> is_space (hd name)"
    and "val = [] \<or> \<not> is_space (last val)"
  shows "partition_at ''='' (strip (name @ ''='' @ val)) = Some (name, val)"
proof -
  have "\<not> is_space (hd (name @ ''='' @ val))"
    using assms(2) equals_not_space by (cases name) auto
  moreover have "\<not> is_space (last (name @ ''='' @ val))"
    using assms(3) equals_not_space by (cases val rule: rev_cases) auto
  ultimately have "strip (name @ ''='' @ val) = name @ ''='' @ val"
    by (intro strip_id) simp_all
  then show ?thesis using assms(1) by (simp add: partition_at_single_iff)
qed


lemma cookie_text_parsed:
  assumes "CHR '';'' \<notin> set name" and "CHR '';'' \<notin> set val" and "CHR '';'' \<notin> set pth"
    and "CHR ''='' \<notin> set name"
    and "name = [] \<or> \<not> is_space (hd name)"
    and "val = [] \<or> \<not> is_space (last val)"
    and "name \<noteq> ''Path''"
    and "max_age = None \<or> max_age = Some 0 \<or> name \<noteq> ''Max-Age''"
  shows "map_of (parse_cookies [(''cookie'', cookie_text name val pth max_age)]) name = Some val"
proof -
  define first where "first = name @ ''='' @ val"
  define second where "second = CHR '' '' # ''Path'' @ ''='' @ pth"
  have first_no: "CHR '';'' \<notin> set first" using assms(1,2) by (simp add: first_def)
  have second_no: "CHR '';'' \<notin> set second" using assms(3) by (simp add: second_def)
  have c1: "contains ''='' first" by (simp add: contains_def first_def partition_at_single_None)
  have c2: "contains ''='' second" by (simp add: contains_def second_def partition_at_single_None)
  have p1: "partition_at ''='' (strip first) = Some (name, val)"
    unfolding first_def using assms(4,5,6) by (rule own_pair)
  have "\<not> is_space (hd ''Path'')" by code_simp
  then obtain x where p2: "partition_at ''='' (strip second) = Some (''Path'', x)"
    unfolding second_def using attribute_pair [of "''Path''" pth] by auto
  let ?step = "\<lambda>pair cs. if contains ''='' pair
                      then (case partition_at ''='' (strip pair) of
                              Some (k, v) \<Rightarrow> AList.update k v cs
                            | None \<Rightarrow> cs)
                      else cs"
  have two: "map_of (fold ?step [first, second] []) name = Some val"
    using c1 c2 p1 p2 assms(7) by (simp add: update_conv')
  show ?thesis
  proof (cases "max_age = None \<or> max_age = Some 0")
    case True
    then have "cookie_text name val pth max_age = first @ CHR '';'' # second"
      by (auto simp: cookie_text_def first_def second_def)
    then have "split_on '';'' (cookie_text name val pth max_age) = [first, second]"
      using first_no second_no by (simp add: split_on_single_cons split_on_single_none)
    with two show ?thesis by (simp add: parse_cookies_def dict_get_def)
  next
    case False
    then obtain n where n: "max_age = Some n" "n \<noteq> 0" by (cases max_age) auto
    with assms(8) have name: "name \<noteq> ''Max-Age''" by simp
    define third where "third = CHR '' '' # ''Max-Age'' @ ''='' @ str_int n"
    have third_no: "CHR '';'' \<notin> set third" using str_int_no_semicolon by (simp add: third_def)
    have c3: "contains ''='' third" by (simp add: contains_def third_def partition_at_single_None)
    have "\<not> is_space (hd ''Max-Age'')" by code_simp
    then obtain y where p3: "partition_at ''='' (strip third) = Some (''Max-Age'', y)"
      unfolding third_def using attribute_pair [of "''Max-Age''" "str_int n"] by auto
    have "cookie_text name val pth max_age = first @ CHR '';'' # second @ CHR '';'' # third"
      using n by (simp add: cookie_text_def first_def second_def third_def)
    then have "split_on '';'' (cookie_text name val pth max_age) = [first, second, third]"
      using first_no second_no third_no by (simp add: split_on_single_cons split_on_single_none)
    moreover have "map_of (fold ?step [first, second, third] []) name = Some val"
      using c1 c2 c3 p1 p2 p3 assms(7) name by (simp add: update_conv')
    ultimately show ?thesis by (simp add: parse_cookies_def dict_get_def)
  qed
qed

text \<open>
  Claim C8, as the code has it. \<open>set_cookie\<close> stores the text
  \<open>name=value; Path=path\<close> (followed by \<open>; Max-Age=n\<close> for a non-zero \<open>max_age\<close>), and
  \<open>parse_cookies\<close> on that text binds \<open>name\<close> to \<open>value\<close>, provided that neither the name,
  the value nor the path contains \<open>;\<close>, the name contains no \<open>=\<close>, the name does not
  start and the value does not end with a blank, and the name is not that of an
  attribute written after it (\<open>Path\<close>, and \<open>Max-Age\<close> when one is written).
\<close>

theorem cookie_round_trip:
  assumes "CHR '';'' \<notin> set name" and "CHR '';'' \<notin> set val" and "CHR '';'' \<notin> set pth"
    and "CHR ''='' \<notin> set name"
    and "name = [] \<or> \<not> is_space (hd name)"
    and "val = [] \<or> \<not> is_space (last val)"
    and "name \<noteq> ''Path''"
    and "max_age = None \<or> max_age = Some 0 \<or> name \<noteq> ''Max-Age''"
  shows "\<exists>text. map_of (r_cookies (set_cookie resp name val pth max_age)) (lower name) = Some text
           \<and> text = cookie_text name val pth max_age
           \<and> map_of (parse_cookies [(''cookie'', text)]) name = Some val"
  using cookie_text_parsed [OF assms] by (simp add: set_cookie_def update_conv')

theorem cookie_round_trip_witness:
  "map_of (r_cookies (set_cookie new_response ''auth'' ''true'' ''/'' None)) (lower ''auth'')
     = Some ''auth=true; Path=/''
   \<and> map_of (parse_cookies [(''cookie'', ''auth=true; Path=/'')]) ''auth'' = Some ''true''"
proof -
  have h1: "CHR '';'' \<notin> set ''auth''" by simp
  have h2: "CHR '';'' \<notin> set ''true''" by simp
  have h3: "CHR '';'' \<notin> set ''/''" by simp
  have h4: "CHR ''='' \<notin> set ''auth''" by simp
  have "\<not> is_space (hd ''auth'')" by code_simp
  then have h5: "''auth'' = [] \<or> \<not> is_space (hd ''auth'')" by simp
  have "\<not> is_space (last ''true'')" by code_simp
  then have h6: "''true'' = [] \<or> \<not> is_space (last ''true'')" by simp
  have h7: "''auth'' \<noteq> ''Path''" by simp
  have h8: "(None :: int option) = None \<or> (None :: int option) = Some 0 \<or> ''auth'' \<noteq> ''Max-Age''" by simp
  have t: "cookie_text ''auth'' ''true'' ''/'' None = ''auth=true; Path=/''" by code_simp
  show ?thesis
    using cookie_round_trip [OF h1 h2 h3 h4 h5 h6 h7 h8, of new_response] t by simp
qed

text \<open>
  The claim as the specification states it, for every name and value, fails for the
  value \<open>b;c\<close>: the parser splits at every \<open>;\<close> and binds the name to \<open>b\<close>.
\<close>

theorem cookie_value_with_semicolon_cut:
  "map_of (r_cookies (set_cookie new_response ''a'' ''b;c'' ''/'' None)) (lower ''a'') = Some ''a=b;c; Path=/''
   \<and> map_of (parse_cookies [(''cookie'', ''a=b;c; Path=/'')]) ''a'' = Some ''b''
   \<and> map_of (parse_cookies [(''cookie'', ''a=b;c; Path=/'')]) ''a'' \<noteq> Some ''b;c''"
  by code_simp

section \<open>The root path and \<open>/index.html\<close>\<close>

text \<open>A first line without line boundaries, followed by nothing or by a line boundary.\<close>

lemma splitlines_acc_line:
  "\<forall>c \<in> set l. \<not> is_linebreak c \<Longrightarrow> splitlines_acc cur (l @ s) = splitlines_acc (rev l @ cur) s"
  by (induction l arbitrary: cur) simp_all

lemma splitlines_first_line:
  assumes "\<forall>c \<in> set l. \<not> is_linebreak c" and "l \<noteq> []" and "s = [] \<or> is_linebreak (hd s)"
  shows "\<exists>ls. splitlines (l @ s) = l # ls"
proof (cases s)
  case Nil
  with assms(1,2) show ?thesis
    using splitlines_acc_line [of l "[]" "[]"] by (simp add: splitlines_def)
next
  case (Cons c cs)
  with assms(3) have "is_linebreak c" by simp
  with Cons assms(1) show ?thesis
    using splitlines_acc_line [of l "[]" "c # cs"] by (simp add: splitlines_def)
qed

lemma partition_at_skip:
  assumes "sep \<noteq> []" and "hd sep \<notin> set a"
  shows "partition_at sep (a @ s) = map_option (\<lambda>(x, b). (a @ x, b)) (partition_at sep s)"
  using assms(2)
proof (induction a)
  case Nil
  show ?case by (simp add: option.map_ident split_def)
next
  case (Cons x xs)
  from Cons.prems assms(1) have "\<not> prefix sep (x # xs @ s)"
    by (cases sep) auto
  with Cons show ?case
    by (simp add: option.map_comp comp_def split_def)
qed

lemma split_on_skip:
  assumes "sep \<noteq> []" and "hd sep \<notin> set a"
  shows "tl (split_on sep (a @ s)) = tl (split_on sep s)"
proof (cases "partition_at sep s")
  case None
  then have "partition_at sep (a @ s) = None" using assms by (simp add: partition_at_skip)
  with None assms(1) show ?thesis
    by (subst split_on.simps, subst (2) split_on.simps) simp
next
  case (Some xb)
  obtain x b where xb: "xb = (x, b)" by (cases xb)
  with Some have "partition_at sep (a @ s) = Some (a @ x, b)" using assms by (simp add: partition_at_skip)
  with Some xb assms(1) show ?thesis
    by (subst split_on.simps, subst (2) split_on.simps) simp
qed

lemma CR_is_linebreak: "is_linebreak CR" by code_simp

lemma prepare_headers_skip:
  assumes "\<forall>c \<in> set l. \<not> is_linebreak c"
  shows "prepare_headers (l @ s) = prepare_headers s"
proof -
  have "CR \<notin> set l" using assms CR_is_linebreak by blast
  then have "tl (split_on CRLF (l @ s)) = tl (split_on CRLF s)"
    by (intro split_on_skip) simp_all
  then show ?thesis by (simp add: prepare_headers_def)
qed

lemma extract_body_skip:
  assumes "\<forall>c \<in> set l. \<not> is_linebreak c"
  shows "extract_body (l @ s) = extract_body s"
proof -
  have "CR \<notin> set l" using assms CR_is_linebreak by blast
  then have "partition_at (CRLF @ CRLF) (l @ s)
               = map_option (\<lambda>(x, b). (l @ x, b)) (partition_at (CRLF @ CRLF) s)"
    by (intro partition_at_skip) simp_all
  then show ?thesis
    by (cases "partition_at (CRLF @ CRLF) s") (auto simp: extract_body_def split_once_def)
qed

lemma extract_request_line_tokens:
  assumes "splitlines raw = l # ls" and "split_ws l = [m, p, v]"
  shows "extract_request_line raw = (Some m, Some (if p = ''/'' then ''/index.html'' else p), Some v)"
  using assms by (simp add: extract_request_line_def request_line_try_def)

text \<open>
  \<open>handle_client\<close> reads the buffer only through the request line, the headers and the
  body that the parser extracts from it.
\<close>

lemma handle_client_cong:
  assumes "raw \<noteq> []" and "raw' \<noteq> []"
    and "extract_request_line raw' = extract_request_line raw"
    and "prepare_headers raw' = prepare_headers raw"
    and "extract_body raw' = extract_body raw"
  shows "prepare raw' rts = prepare raw rts \<and> handle_client ev rts raw' = handle_client ev rts raw"
proof -
  have "prepare raw' rts = prepare raw rts"
    unfolding prepare_def assms(3) assms(4) assms(5) by (rule refl)
  then show ?thesis using assms(1,2) by (simp add: handle_client_def handle_try_def)
qed

text \<open>
  Claim C9. Take two request buffers with the same text after the first line, whose
  first lines split into the same method and version and into the paths \<open>/\<close> and
  \<open>/index.html\<close>. Request-line extraction gives the path \<open>/index.html\<close> for both, so the
  rewrite has happened before \<open>prepare\<close> looks the route up; \<open>prepare\<close> gives the same
  result for both, matched handler included; and \<open>handle_client\<close> does the same on the
  connection for both, whatever the route table, the files and the handlers.
\<close>

theorem root_path_same_as_index:
  assumes "\<forall>c \<in> set l. \<not> is_linebreak c" and "\<forall>c \<in> set l'. \<not> is_linebreak c"
    and "s = [] \<or> is_linebreak (hd s)"
    and "split_ws l = [m, ''/'', v]" and "split_ws l' = [m, ''/index.html'', v]"
  shows "extract_request_line (l @ s) = (Some m, Some ''/index.html'', Some v)
       \<and> extract_request_line (l' @ s) = (Some m, Some ''/index.html'', Some v)
       \<and> prepare (l @ s) rts = prepare (l' @ s) rts
       \<and> handle_client ev rts (l @ s) = handle_client ev rts (l' @ s)"
proof -
  have ne: "l \<noteq> []" "l' \<noteq> []" using assms(4,5) by (auto simp: split_ws_def)
  obtain ls where ls: "splitlines (l @ s) = l # ls"
    using splitlines_first_line [OF assms(1) ne(1) assms(3)] by blast
  obtain ls' where ls': "splitlines (l' @ s) = l' # ls'"
    using splitlines_first_line [OF assms(2) ne(2) assms(3)] by blast
  have e: "extract_request_line (l @ s) = (Some m, Some ''/index.html'', Some v)"
    using extract_request_line_tokens [OF ls assms(4)] by simp
  have e': "extract_request_line (l' @ s) = (Some m, Some ''/index.html'', Some v)"
    using extract_request_line_tokens [OF ls' assms(5)] by simp
  have h: "prepare_headers (l' @ s) = prepare_headers (l @ s)"
    using prepare_headers_skip [OF assms(1)] prepare_headers_skip [OF assms(2)] by simp
  have b: "extract_body (l' @ s) = extract_body (l @ s)"
    using extract_body_skip [OF assms(1)] extract_body_skip [OF assms(2)] by simp
  have "l @ s \<noteq> []" "l' @ s \<noteq> []" using ne by simp_all
  then show ?thesis
    using handle_client_cong [of "l @ s" "l' @ s" rts ev] e e' h b by simp
qed


theorem root_path_same_as_index_witness:
  "split_ws ''GET / HTTP/1.1'' = [''GET'', ''/'', ''HTTP/1.1'']
   \<and> split_ws ''GET /index.html HTTP/1.1'' = [''GET'', ''/index.html'', ''HTTP/1.1'']
   \<and> handle_client (sample_env [(''www/index.html'', FileData ''<h1>home</h1>'')]) []
         (''GET / HTTP/1.1'' @ (CRLF @ ''Cookie: auth=true'' @ CRLF @ CRLF))
       = handle_client (sample_env [(''www/index.html'', FileData ''<h1>home</h1>'')]) []
         (''GET /index.html HTTP/1.1'' @ (CRLF @ ''Cookie: auth=true'' @ CRLF @ CRLF))
   \<and> handle_client (sample_env [(''www/index.html'', FileData ''<h1>home</h1>'')]) []
         (''GET / HTTP/1.1'' @ (CRLF @ ''Cookie: auth=true'' @ CRLF @ CRLF))
       = [Sendall (''HTTP/1.1 200 OK'' @ CRLF
            @ ''Accept: application/json'' @ CRLF
            @ ''Accept-Language: en-US,en;q=0.9'' @ CRLF
            @ ''Authorization: Basic <credentials>'' @ CRLF
            @ ''Cache-Control: no-cache'' @ CRLF
            @ ''Content-Type: text/html'' @ CRLF
            @ ''Content-Length: 13'' @ CRLF
            @ ''Date: Tue, 03 Nov 2026 12:00:00 GMT'' @ CRLF
            @ ''Max-Forward: 10'' @ CRLF
            @ ''Pragma: no-cache'' @ CRLF
            @ ''Proxy-Authorization: Basic dXNlcjpwYXNz'' @ CRLF
            @ ''Warning: 199 Miscellaneous warning'' @ CRLF
            @ ''User-Agent: Chrome/123.0.0.0'' @ CRLF
            @ CRLF
            @ ''<h1>home</h1>''),
          Close, Close]"
proof -
  have h1: "\<forall>c \<in> set ''GET / HTTP/1.1''. \<not> is_linebreak c" by code_simp
  have h2: "\<forall>c \<in> set ''GET /index.html HTTP/1.1''. \<not> is_linebreak c" by code_simp
  have "is_linebreak (hd (CRLF @ ''Cookie: auth=true'' @ CRLF @ CRLF))" by code_simp
  then have h3: "CRLF @ ''Cookie: auth=true'' @ CRLF @ CRLF = []
                 \<or> is_linebreak (hd (CRLF @ ''Cookie: auth=true'' @ CRLF @ CRLF))" ..
  have h4: "split_ws ''GET / HTTP/1.1'' = [''GET'', ''/'', ''HTTP/1.1'']" by code_simp
  have h5: "split_ws ''GET /index.html HTTP/1.1'' = [''GET'', ''/index.html'', ''HTTP/1.1'']" by code_simp
  have r: "handle_client (sample_env [(''www/index.html'', FileData ''<h1>home</h1>'')]) []
         (''GET / HTTP/1.1'' @ (CRLF @ ''Cookie: auth=true'' @ CRLF @ CRLF))
       = [Sendall (''HTTP/1.1 200 OK'' @ CRLF
            @ ''Accept: application/json'' @ CRLF
            @ ''Accept-Language: en-US,en;q=0.9'' @ CRLF
            @ ''Authorization: Basic <credentials>'' @ CRLF
            @ ''Cache-Control: no-cache'' @ CRLF
            @ ''Content-Type: text/html'' @ CRLF
            @ ''Content-Length: 13'' @ CRLF
            @ ''Date: Tue, 03 Nov 2026 12:00:00 GMT'' @ CRLF
            @ ''Max-Forward: 10'' @ CRLF
            @ ''Pragma: no-cache'' @ CRLF
            @ ''Proxy-Authorization: Basic dXNlcjpwYXNz'' @ CRLF
            @ ''Warning: 199 Miscellaneous warning'' @ CRLF
            @ ''User-Agent: Chrome/123.0.0.0'' @ CRLF
            @ CRLF
            @ ''<h1>home</h1>''),
          Close, Close]"
    by code_simp
  from root_path_same_as_index [OF h1 h2 h3 h4 h5,
         of "[]" "sample_env [(''www/index.html'', FileData ''<h1>home</h1>'')]"]
  have "handle_client (sample_env [(''www/index.html'', FileData ''<h1>home</h1>'')]) []
         (''GET / HTTP/1.1'' @ (CRLF @ ''Cookie: auth=true'' @ CRLF @ CRLF))
       = handle_client (sample_env [(''www/index.html'', FileData ''<h1>home</h1>'')]) []
         (''GET /index.html HTTP/1.1'' @ (CRLF @ ''Cookie: auth=true'' @ CRLF @ CRLF))"
    by (elim conjE)
  with h4 h5 r show ?thesis by (intro conjI)
qed

end
